theory Spec2Isabelle
  imports Main "HOL-Library.Word"
begin

unbundle bit_operations_syntax

text \<open>
  A model of the crawler worker: the counting semaphore and the keyed map of semaphores of
  \<^verbatim>\<open>limitmap/limitmap.go\<close>, and the client, the worker, the goroutines that download
  at the same time and the dispatcher of \<^verbatim>\<open>worker_main.go\<close>. The definitions come
  first, each next to the source function it follows; the proofs start with the semaphore.
\<close>

section \<open>Machine types\<close>

text \<open>
  Go's \<^verbatim>\<open>uint\<close> is modelled at its 64-bit width: addition and subtraction wrap
  around and the order is the unsigned one. Go's \<^verbatim>\<open>int\<close> reference count is an
  \<^typ>\<open>int\<close>; a \<^verbatim>\<open>[]byte\<close> is a list of 8-bit words.
\<close>

type_synonym uint = "64 word"
type_synonym byte = "8 word"

section \<open>limitmap: the counting semaphore\<close>

text \<open>
  \<^verbatim>\<open>type Semaphore struct { refs int; max uint; value uint; wait sync.Cond }\<close>.
  The fields \<^verbatim>\<open>max\<close> and \<^verbatim>\<open>value\<close> carry the suffix \<open>_sem\<close> here. The condition
  variable holds no data: its mutex makes each call's critical section atomic, which is
  how the operations below are read.
\<close>

record Semaphore =
  refs :: int
  max_sem :: uint
  value_sem :: uint

definition NewSemaphore :: "uint \<Rightarrow> Semaphore" where
  "NewSemaphore m = \<lparr>refs = 0, max_sem = m, value_sem = 0\<rparr>"

text \<open>
  One pass of the loop of \<^verbatim>\<open>Semaphore.Acquire\<close> under the lock: when
  \<^verbatim>\<open>uint(s.value)+1 <= s.max\<close> the counter is incremented and returned; otherwise
  the goroutine parks in \<^verbatim>\<open>s.wait.Wait()\<close> with the state unchanged, and runs the
  test again when it is woken.
\<close>

datatype acquire_result = Acquired Semaphore uint | Parked

definition Semaphore_Acquire :: "Semaphore \<Rightarrow> acquire_result" where
  "Semaphore_Acquire s =
     (if value_sem s + 1 \<le> max_sem s
      then (let s' = s\<lparr>value_sem := value_sem s + 1\<rparr> in Acquired s' (value_sem s'))
      else Parked)"

text \<open>
  \<^verbatim>\<open>Semaphore.Release\<close>: decrement, then the test \<^verbatim>\<open>s.value < 0\<close> that guards the
  panic, then the signal. The named result is never assigned, so 0 is returned.
  \<open>Inl\<close> carries the message of a panic.
\<close>

definition Semaphore_Release :: "Semaphore \<Rightarrow> string + (Semaphore \<times> uint)" where
  "Semaphore_Release s =
     (let s' = s\<lparr>value_sem := value_sem s - 1\<rparr>
      in if value_sem s' < 0 then Inl ''Semaphore Release without Acquire''
         else Inr (s', 0))"

text \<open>
  An execution of one semaphore is a sequence of critical sections: \<open>Acq\<close> is one pass
  of a goroutine through the test of \<^verbatim>\<open>Acquire\<close> (it returns or parks), \<open>Rel\<close> is one
  call of \<^verbatim>\<open>Release\<close>.
\<close>

datatype sem_op = Acq | Rel

fun sem_step :: "Semaphore \<Rightarrow> sem_op \<Rightarrow> string + Semaphore" where
  "sem_step s Acq = (case Semaphore_Acquire s of Acquired s' x \<Rightarrow> Inr s' | Parked \<Rightarrow> Inr s)"
| "sem_step s Rel = (case Semaphore_Release s of Inl p \<Rightarrow> Inl p | Inr (s', x) \<Rightarrow> Inr s')"

fun sem_run :: "Semaphore \<Rightarrow> sem_op list \<Rightarrow> string + Semaphore" where
  "sem_run s [] = Inr s"
| "sem_run s (e # es) = (case sem_step s e of Inl p \<Rightarrow> Inl p | Inr s' \<Rightarrow> sem_run s' es)"

text \<open>
  \<open>matched s h es\<close>: in the execution \<open>es\<close> from state \<open>s\<close> with \<open>h\<close> holders, every
  \<open>Rel\<close> comes after an \<^verbatim>\<open>Acquire\<close> that returned and has not been released yet
  (an execution ends at a panic, so nothing is asked of what follows one).
\<close>

fun matched :: "Semaphore \<Rightarrow> nat \<Rightarrow> sem_op list \<Rightarrow> bool" where
  "matched s h [] = True"
| "matched s h (Acq # es) =
     (case Semaphore_Acquire s of
        Acquired s' x \<Rightarrow> matched s' (Suc h) es
      | Parked \<Rightarrow> matched s h es)"
| "matched s h (Rel # es) =
     (0 < h \<and>
      (case Semaphore_Release s of
         Inl p \<Rightarrow> True
       | Inr (s', x) \<Rightarrow> matched s' (h - 1) es))"

definition sem_inv :: "Semaphore \<Rightarrow> nat \<Rightarrow> bool" where
  "sem_inv s h = (value_sem s \<le> max_sem s \<and> (max_sem s = - 1 \<or> unat (value_sem s) = h))"

section \<open>limitmap: the keyed map of semaphores\<close>

text \<open>
  \<^verbatim>\<open>type LimitMap struct { lk sync.Mutex; limits map[string]*Semaphore; wg sync.WaitGroup }\<close>.
  The map holds pointers, so an update of a semaphore is an update of its entry; the wait
  group is its counter. \<open>Waiting\<close> is the state in which the calling goroutine is parked
  inside \<^verbatim>\<open>l.Acquire()\<close>.
\<close>

record LimitMap =
  limits :: "string \<rightharpoonup> Semaphore"
  wg :: int

datatype limit_result = Panicked string | Waiting LimitMap | Returned LimitMap



definition LimitMap_Release :: "LimitMap \<Rightarrow> string \<Rightarrow> limit_result" where
  "LimitMap_Release m key =
     (case limits m key of
        None \<Rightarrow> Panicked ''LimitMap: key not in map. Possible reason: Release without Acquire.''
      | Some l0 \<Rightarrow>
          (let l = l0\<lparr>refs := refs l0 - 1\<rparr>
           in if refs l < 0 then Panicked ''LimitMap internal error: refs < 0.''
              else
                (case Semaphore_Release l of
                   Inl p \<Rightarrow> Panicked p
                 | Inr (l', x) \<Rightarrow>
                     if x < 0 \<or> max_sem l' < x then Panicked ''oir''
                     else if wg m - 1 < 0 then Panicked ''sync: negative WaitGroup counter''
                     else Returned
                       \<lparr>limits = (if refs l = 0 then (limits m)(key := None)
                                  else (limits m)(key \<mapsto> l')),
                        wg = wg m - 1\<rparr>)))"

section \<open>The fetcher: data\<close>

text \<open>
  \<^verbatim>\<open>url.URL\<close> with its string fields (\<^verbatim>\<open>User\<close> as its rendering, empty for nil),
  \<^verbatim>\<open>http.Header\<close> as a map from canonical keys to value lists, and the structs of the
  program. A nil \<^verbatim>\<open>Body\<close> is \<open>None\<close>. Durations are nanoseconds.
\<close>

record URL =
  Scheme :: string
  Opaque :: string
  User :: string
  Host :: string
  Path :: string
  RawQuery :: string
  Fragment :: string

type_synonym Header = "string \<rightharpoonup> string list"

text \<open>\<^verbatim>\<open>Header.Get\<close> for a key in canonical form: the first value, or the empty string.\<close>

definition Header_Get :: "Header \<Rightarrow> string \<Rightarrow> string" where
  "Header_Get h key =
     (case h key of None \<Rightarrow> [] | Some vs \<Rightarrow> (case vs of [] \<Rightarrow> [] | v # _ \<Rightarrow> v))"

record FetchResult =
  Url :: string
  Success :: bool
  Status :: string
  StatusCode :: int
  Headers :: Header
  Body :: "byte list option"
  Length :: int
  Cached :: bool
  FetchTime :: uint
  TotalTime :: uint

record FetchOptions =
  IOTimeout_opt :: int
  TotalTimeout :: int

record Request =
  req_Method :: string
  req_URL :: URL
  req_Header :: Header

record Worker =
  SkipRobots :: bool
  SkipBody :: bool
  FollowRedirects :: uint
  IOTimeout :: int
  FetchTimeout :: int
  KeepAlive :: uint
  DomainConcurrency :: uint

text \<open>The struct that \<^verbatim>\<open>encodeResult\<close> fills and serializes; fields that share a name
  with \<^verbatim>\<open>FetchResult\<close> carry the suffix \<open>_r\<close>.\<close>

record report =
  Key :: string
  Url_r :: string
  Success_r :: bool
  Status_r :: string
  StatusCode_r :: int
  Headers_r :: Header
  Content :: string
  Length_r :: int
  Cached_r :: bool
  Visited :: string
  FetchTime_r :: uint
  TotalTime_r :: uint

section \<open>The environment\<close>

text \<open>
  What the program calls and does not define is a parameter of the model:
  \<^item> \<open>url_String\<close>, \<open>url_Parse\<close>, \<open>url_ParseRef\<close>: \<^verbatim>\<open>(*URL).String\<close>, \<^verbatim>\<open>url.Parse\<close>
    and \<^verbatim>\<open>(*URL).Parse\<close> of net/url (the last resolves a reference against the
    receiver); \<open>Inl\<close> carries \<^verbatim>\<open>err.Error()\<close>;
  \<^item> \<open>http_NewRequest\<close>: \<^verbatim>\<open>http.NewRequest\<close> with a nil body;
  \<^item> \<open>http_Do\<close>: what \<^verbatim>\<open>http_client.Do\<close> and the copy of the response body yield
    for the request started at tick \<open>t\<close>: an error of \<^verbatim>\<open>Do\<close>, an error of
    \<^verbatim>\<open>io.Copy\<close>, or status line, status code, header and body. The variable
    \<^verbatim>\<open>http_client\<close> is an \<^verbatim>\<open>http.Client\<close> without a \<^verbatim>\<open>CheckRedirect\<close>, so the
    requests that net/http makes on its own to follow a redirect happen inside this call;
  \<^item> \<open>timer_fires\<close>: whether \<^verbatim>\<open>time.After(options.TotalTimeout)\<close> wins the
    \<^verbatim>\<open>select\<close> against the round-trip started at tick \<open>t\<close>;
  \<^item> \<open>elapsed_ms\<close>: the milliseconds, as a \<^verbatim>\<open>uint\<close>, between the clock readings
    number \<open>t1\<close> and \<open>t2\<close>;
  \<^item> \<open>robots_FromResponseBytes\<close>: the robots.txt reader; the data it returns is the
    predicate \<^verbatim>\<open>Test\<close> from agent and path;
  \<^item> \<open>json_Marshal\<close>: \<^verbatim>\<open>json.Marshal\<close> of the report struct.
  The state threaded through the fetcher is the number of clock readings so far.
\<close>

datatype roundtrip = DoError string | CopyError string | Response string int Header "byte list"

type_synonym RobotsData = "string \<Rightarrow> string \<Rightarrow> string + bool"

record env =
  url_String :: "URL \<Rightarrow> string"
  url_Parse :: "string \<Rightarrow> string + URL"
  url_ParseRef :: "URL \<Rightarrow> string \<Rightarrow> string + URL"
  http_NewRequest :: "string \<Rightarrow> string \<Rightarrow> string + Request"
  http_Do :: "nat \<Rightarrow> Request \<Rightarrow> roundtrip"
  timer_fires :: "nat \<Rightarrow> Request \<Rightarrow> FetchOptions \<Rightarrow> bool"
  elapsed_ms :: "nat \<Rightarrow> nat \<Rightarrow> uint"
  robots_FromResponseBytes :: "int \<Rightarrow> byte list \<Rightarrow> string + RobotsData"
  json_Marshal :: "report \<Rightarrow> string + string"

section \<open>The client\<close>

definition millisecond :: int where
  "millisecond = 1000000"

definition second :: int where
  "second = 1000 * millisecond"

text \<open>Go's integer division truncates towards zero; \<^verbatim>\<open>%d\<close> prints decimal digits.\<close>

definition quot :: "int \<Rightarrow> int \<Rightarrow> int" where
  "quot a b = sgn a * sgn b * (\<bar>a\<bar> div \<bar>b\<bar>)"

function decimal :: "nat \<Rightarrow> string" where
  "decimal n = (if n < 10 then [char_of (48 + n)] else decimal (n div 10) @ [char_of (48 + n mod 10)])"
  by pat_completeness auto
termination
  by (relation "measure id") auto

definition Sprintf_d :: "int \<Rightarrow> string" where
  "Sprintf_d i = (if i < 0 then CHR ''-'' # decimal (nat (- i)) else decimal (nat i))"

definition DefaultOptions :: FetchOptions where
  "DefaultOptions = \<lparr>IOTimeout_opt = 30 * second, TotalTimeout = 0\<rparr>"

definition ErrorResult :: "string \<Rightarrow> string \<Rightarrow> FetchResult" where
  "ErrorResult url reason =
     \<lparr>Url = url, Success = False, Status = reason, StatusCode = 0, Headers = Map.empty,
      Body = None, Length = 0, Cached = False, FetchTime = 0, TotalTime = 0\<rparr>"

definition ShouldRedirect :: "int \<Rightarrow> bool" where
  "ShouldRedirect statusCode =
     (statusCode = 301 \<or> statusCode = 302 \<or> statusCode = 303 \<or> statusCode = 307)"

text \<open>\<^verbatim>\<open>func (client *Client) Abort(req *http.Request) { panic("Not implemented") }\<close>\<close>

definition Client_Abort :: "Request \<Rightarrow> string + unit" where
  "Client_Abort req = Inl ''Not implemented''"

text \<open>\<^verbatim>\<open>client.fetch\<close>: the round-trip and the copy of the body.\<close>

definition Client_fetch :: "env \<Rightarrow> nat \<Rightarrow> Request \<Rightarrow> FetchOptions \<Rightarrow> FetchResult" where
  "Client_fetch e t req options =
     (case http_Do e t req of
        DoError err \<Rightarrow> ErrorResult (url_String e (req_URL req)) err
      | CopyError err \<Rightarrow> ErrorResult (url_String e (req_URL req)) err
      | Response status code header responseBody \<Rightarrow>
          \<lparr>Url = url_String e (req_URL req), Success = True, Status = status,
           StatusCode = code, Headers = header, Body = Some responseBody,
           Length = int (length responseBody), Cached = False, FetchTime = 0,
           TotalTime = 0\<rparr>)"

text \<open>
  \<^verbatim>\<open>client.Fetch\<close>: the clock is read at tick \<open>t\<close>, the \<^verbatim>\<open>select\<close> takes the
  result of \<^verbatim>\<open>client.fetch\<close> or the timer; on the timer \<^verbatim>\<open>client.Abort\<close> is called
  before the error result is built. The clock is read once more for \<^verbatim>\<open>FetchTime\<close>.
  \<open>Inl\<close> is a panic.
\<close>

definition Client_Fetch ::
  "env \<Rightarrow> Request \<Rightarrow> FetchOptions option \<Rightarrow> nat \<Rightarrow> string + (FetchResult \<times> nat)" where
  "Client_Fetch e req options0 t =
     (let options = (case options0 of None \<Rightarrow> DefaultOptions | Some opts \<Rightarrow> opts);
          started = t
      in if timer_fires e started req options
         then (case Client_Abort req of
                 Inl p \<Rightarrow> Inl p
               | Inr u \<Rightarrow>
                   Inr ((ErrorResult (url_String e (req_URL req))
                          (''Fetch timeout: '' @
                             Sprintf_d (quot (TotalTimeout options) millisecond)))
                        \<lparr>FetchTime := elapsed_ms e started (started + 1)\<rparr>, started + 2))
         else Inr ((Client_fetch e started req options)
                     \<lparr>FetchTime := elapsed_ms e started (started + 1)\<rparr>, started + 2))"

section \<open>The worker\<close>

definition newWorker :: Worker where
  "newWorker = \<lparr>SkipRobots = False, SkipBody = False, FollowRedirects = 1,
     IOTimeout = 1 * second, FetchTimeout = 60 * second, KeepAlive = 60,
     DomainConcurrency = 2\<rparr>"

definition user_agent :: string where
  "user_agent = ''HeroshiBot/0.3 (+http://temoto.github.com/heroshi/; temotor@gmail.com)''"

text \<open>\<^verbatim>\<open>Worker.Download\<close>: one request, no redirects followed.\<close>

definition Worker_Download ::
  "Worker \<Rightarrow> env \<Rightarrow> URL \<Rightarrow> nat \<Rightarrow> string + (FetchResult \<times> nat)" where
  "Worker_Download w e url t =
     (case http_NewRequest e ''GET'' (url_String e url) of
        Inl err \<Rightarrow> Inr (ErrorResult (url_String e url) err, t)
      | Inr req0 \<Rightarrow>
          (let req = req0\<lparr>req_Header := (req_Header req0)(''User-Agent'' \<mapsto> [user_agent])\<rparr>;
               options = \<lparr>IOTimeout_opt = IOTimeout w, TotalTimeout = FetchTimeout w\<rparr>
           in case Client_Fetch e req (Some options) t of
                Inl p \<Rightarrow> Inl p
              | Inr (result, t') \<Rightarrow>
                  Inr (if SkipBody w then result\<lparr>Body := None\<rparr> else result, t')))"

text \<open>
  \<^verbatim>\<open>Worker.Fetch\<close> and \<^verbatim>\<open>Worker.AskRobots\<close> call each other, and nothing in the
  source bounds the depth of the calls, so the three functions below take fuel: the
  first argument bounds the number of nested calls and loop passes, and \<open>None\<close> means
  that it ran out. \<open>Some (Inl p)\<close> is a panic, \<open>Some (Inr x)\<close> a return.

  \<open>Fetch_loop\<close> is the \<^verbatim>\<open>for redirect := uint(0); redirect <= w.FollowRedirects; redirect++\<close>
  loop of \<^verbatim>\<open>Fetch\<close>, entered at its test, with the loop's variables \<open>redirect\<close>,
  \<open>url\<close> and \<open>result\<close> (nil is \<open>None\<close>). The list \<open>hops\<close> is not in the source: it
  records, in order, the results of the calls of \<^verbatim>\<open>Download\<close> that this invocation's
  loop has made, and is returned beside the result.
\<close>

fun Fetch_loop ::
  "nat \<Rightarrow> Worker \<Rightarrow> env \<Rightarrow> URL \<Rightarrow> uint \<Rightarrow> URL \<Rightarrow> FetchResult option \<Rightarrow> FetchResult list \<Rightarrow> nat \<Rightarrow>
     (string + (FetchResult option \<times> FetchResult list \<times> nat)) option"
and Worker_AskRobots ::
  "nat \<Rightarrow> Worker \<Rightarrow> env \<Rightarrow> URL \<Rightarrow> nat \<Rightarrow> (string + (bool \<times> FetchResult option \<times> nat)) option"
and Worker_Fetch ::
  "nat \<Rightarrow> Worker \<Rightarrow> env \<Rightarrow> URL \<Rightarrow> nat \<Rightarrow> (string + (FetchResult \<times> FetchResult list \<times> nat)) option"
where
  "Fetch_loop 0 w e original_url redirect url result hops t = None"
| "Fetch_loop (Suc k) w e original_url redirect url result hops t =
     (if redirect \<le> FollowRedirects w then
        (if Scheme url = [] \<or> Host url = [] then
           Some (Inr (Some (ErrorResult (url_String e url)
                             (''Incorrect URL: '' @ url_String e url)), hops, t))
         else
           (case (if SkipRobots w \<or> Path url = ''/robots.txt''
                  then Some (Inr (True, result, t))
                  else Worker_AskRobots k w e url t) of
              None \<Rightarrow> None
            | Some (Inl p) \<Rightarrow> Some (Inl p)
            | Some (Inr (allow, result1, t1)) \<Rightarrow>
                (if \<not> allow then Some (Inr (result1, hops, t1))
                 else
                   (case Worker_Download w e url t1 of
                      Inl p \<Rightarrow> Some (Inl p)
                    | Inr (res, t2) \<Rightarrow>
                        (if ShouldRedirect (StatusCode res) then
                           (case url_ParseRef e url (Header_Get (Headers res) ''Location'') of
                              Inl err \<Rightarrow>
                                Some (Inr (Some (ErrorResult (url_String e original_url) err),
                                           hops @ [res], t2))
                            | Inr url' \<Rightarrow>
                                Fetch_loop k w e original_url (redirect + 1) url' (Some res)
                                  (hops @ [res]) t2)
                         else Some (Inr (Some res, hops @ [res], t2)))))))
      else Some (Inr (result, hops, t)))"
| "Worker_AskRobots 0 w e url t = None"
| "Worker_AskRobots (Suc k) w e url t =
     (case url_ParseRef e url (Scheme url @ ''://'' @ Host url @ ''/robots.txt'') of
        Inl err \<Rightarrow> Some (Inr (False, Some (ErrorResult (url_String e url) err), t))
      | Inr robots_url \<Rightarrow>
          (case Worker_Fetch k w e robots_url t of
             None \<Rightarrow> None
           | Some (Inl p) \<Rightarrow> Some (Inl p)
           | Some (Inr (fetch_result, robots_hops, t1)) \<Rightarrow>
               (if \<not> Success fetch_result then
                  Some (Inr (False,
                    Some (fetch_result
                           \<lparr>Status := ''Robots download error: '' @ Status fetch_result\<rparr>),
                    t1))
                else
                  (case robots_FromResponseBytes e (StatusCode fetch_result)
                          (case Body fetch_result of None \<Rightarrow> [] | Some b \<Rightarrow> b) of
                     Inl err \<Rightarrow>
                       Some (Inr (False,
                         Some (fetch_result\<lparr>Status := ''Robots parse error: '' @ err\<rparr>), t1))
                   | Inr robots \<Rightarrow>
                       (case robots ''HeroshiBot'' (Path url) of
                          Inl err \<Rightarrow>
                            Some (Inr (False,
                              Some (ErrorResult (url_String e url)
                                     (''Robots test error: '' @ err)), t1))
                        | Inr allow \<Rightarrow>
                            (if \<not> allow then
                               Some (Inr (allow,
                                 Some (ErrorResult (url_String e url) ''Robots disallow''), t1))
                             else Some (Inr (allow, None, t1))))))))"
| "Worker_Fetch 0 w e url t = None"
| "Worker_Fetch (Suc k) w e url t =
     (case Fetch_loop k w e url 0 url None [] (t + 1) of
        None \<Rightarrow> None
      | Some (Inl p) \<Rightarrow> Some (Inl p)
      | Some (Inr (result, hops, ended)) \<Rightarrow>
          (case result of
             None \<Rightarrow> Some (Inl ''invalid memory address or nil pointer dereference'')
           | Some r \<Rightarrow>
               Some (Inr (r\<lparr>TotalTime := elapsed_ms e t ended\<rparr>, hops, ended + 1))))"

section \<open>Concurrent downloads\<close>










section \<open>The report\<close>

text \<open>
  \<^verbatim>\<open>base64.StdEncoding\<close>: the alphabet of RFC 4648 with \<open>=\<close> padding. \<open>b64_Encode\<close>
  follows \<^verbatim>\<open>Encoding.Encode\<close> (three bytes to four sextets, each looked up in the
  alphabet; a last group of one or two bytes is padded); \<open>b64_Decode\<close> is the decoding
  of the same RFC, \<open>None\<close> on input that is not an encoding.
\<close>

definition encodeStd :: string where
  "encodeStd = ''ABCDEFGHIJKLMNOPQRSTUVWXYZabcdefghijklmnopqrstuvwxyz0123456789+/''"

definition enc6 :: "byte \<Rightarrow> char" where
  "enc6 s = encodeStd ! unat s"

definition dec6 :: "char \<Rightarrow> byte option" where
  "dec6 c = map_option of_nat (map_of (zip encodeStd [0..<64]) c)"

fun b64_Encode :: "byte list \<Rightarrow> string" where
  "b64_Encode [] = []"
| "b64_Encode [a] = [enc6 (drop_bit 2 a), enc6 (push_bit 4 a AND 63), CHR ''='', CHR ''='']"
| "b64_Encode [a, b] =
     [enc6 (drop_bit 2 a), enc6 (push_bit 4 a AND 63 OR drop_bit 4 b),
      enc6 (push_bit 2 b AND 63), CHR ''='']"
| "b64_Encode (a # b # c # rest) =
     [enc6 (drop_bit 2 a), enc6 (push_bit 4 a AND 63 OR drop_bit 4 b),
      enc6 (push_bit 2 b AND 63 OR drop_bit 6 c), enc6 (c AND 63)] @ b64_Encode rest"

fun b64_Decode :: "string \<Rightarrow> byte list option" where
  "b64_Decode [] = Some []"
| "b64_Decode (c0 # c1 # c2 # c3 # rest) =
     (case (dec6 c0, dec6 c1) of
        (Some s0, Some s1) \<Rightarrow>
          (if rest = [] \<and> c2 = CHR ''='' \<and> c3 = CHR ''=''
           then Some [push_bit 2 s0 OR drop_bit 4 s1]
           else (case dec6 c2 of
                   None \<Rightarrow> None
                 | Some s2 \<Rightarrow>
                     (if rest = [] \<and> c3 = CHR ''=''
                      then Some [push_bit 2 s0 OR drop_bit 4 s1, push_bit 4 s1 OR drop_bit 2 s2]
                      else (case dec6 c3 of
                              None \<Rightarrow> None
                            | Some s3 \<Rightarrow>
                                map_option
                                  ((@) [push_bit 2 s0 OR drop_bit 4 s1,
                                        push_bit 4 s1 OR drop_bit 2 s2,
                                        push_bit 6 s2 OR s3])
                                  (b64_Decode rest)))))
      | _ \<Rightarrow> None)"
| "b64_Decode _ = None"

text \<open>
  \<^verbatim>\<open>encodeResult\<close>. \<open>fill_report\<close> is the struct after the assignments that precede
  the first \<^verbatim>\<open>json.Marshal\<close> (\<open>visited\<close> is the formatted current time), and
  \<open>recovery_report\<close> the struct after the assignments of the recovery branch.
  \<open>encodeResult\<close> returns the pair \<^verbatim>\<open>(encoded, err)\<close>; \<open>encoded_report\<close> is the
  struct whose serialization \<^verbatim>\<open>encoded\<close> is, when it is not nil. The later version of
  the function adds connection statistics to the struct and \<^verbatim>\<open>omitempty\<close> to some tags;
  its assignments to \<^verbatim>\<open>Key\<close>, \<^verbatim>\<open>Content\<close> and \<^verbatim>\<open>Length\<close> and its recovery branch
  are the same.
\<close>

definition fill_report :: "string \<Rightarrow> string \<Rightarrow> FetchResult \<Rightarrow> report" where
  "fill_report visited key result =
     \<lparr>Key = key, Url_r = Url result, Success_r = Success result, Status_r = Status result,
      StatusCode_r = StatusCode result, Headers_r = Headers result,
      Content = b64_Encode (case Body result of None \<Rightarrow> [] | Some b \<Rightarrow> b),
      Length_r = Length result, Cached_r = Cached result, Visited = visited,
      FetchTime_r = FetchTime result, TotalTime_r = TotalTime result\<rparr>"

definition recovery_report :: "report \<Rightarrow> string \<Rightarrow> report" where
  "recovery_report rep err =
     rep\<lparr>Content := [], Status_r := err, Success_r := False, StatusCode_r := 0\<rparr>"

definition encodeResult ::
  "env \<Rightarrow> string \<Rightarrow> string \<Rightarrow> FetchResult \<Rightarrow> string option \<times> string option" where
  "encodeResult e visited key result =
     (let rep = fill_report visited key result
      in case json_Marshal e rep of
           Inr encoded \<Rightarrow> (Some encoded, None)
         | Inl err \<Rightarrow>
             (case json_Marshal e (recovery_report rep err) of
                Inr encoded \<Rightarrow> (Some encoded, None)
              | Inl err' \<Rightarrow> (None, Some err')))"

definition encoded_report :: "env \<Rightarrow> string \<Rightarrow> string \<Rightarrow> FetchResult \<Rightarrow> report option" where
  "encoded_report e visited key result =
     (let rep = fill_report visited key result
      in case json_Marshal e rep of
           Inr encoded \<Rightarrow> Some rep
         | Inl err \<Rightarrow>
             (case json_Marshal e (recovery_report rep err) of
                Inr encoded \<Rightarrow> Some (recovery_report rep err)
              | Inl err' \<Rightarrow> None))"

section \<open>The dispatcher\<close>

text \<open>
  \<^verbatim>\<open>bytes.TrimSpace\<close> on ASCII input: tab, line feed, vertical tab, form feed,
  carriage return and space are cut from both ends.
\<close>

definition isSpace :: "char \<Rightarrow> bool" where
  "isSpace c = (c = CHR 0x09 \<or> c = CHR 0x0A \<or> c = CHR 0x0B \<or> c = CHR 0x0C \<or> c = CHR 0x0D \<or>
                c = CHR '' '')"

definition TrimSpace :: "string \<Rightarrow> string" where
  "TrimSpace s = rev (dropWhile isSpace (rev (dropWhile isSpace s)))"

text \<open>
  One pass of the loop of \<^verbatim>\<open>stdinReader\<close> on the line that \<^verbatim>\<open>ReadBytes\<close> returned:
  a blank line is skipped, a line that does not parse is reported at once with the line
  as key, and a parsed URL is sent to the \<^verbatim>\<open>urls\<close> channel.
\<close>

datatype line_effect = Skipped | SendReport "string option" "report option" | SendUrl URL

definition stdinReader_line :: "env \<Rightarrow> string \<Rightarrow> string \<Rightarrow> line_effect" where
  "stdinReader_line e visited line0 =
     (let line = TrimSpace line0
      in if length line = 0 then Skipped
         else (case url_Parse e line of
                 Inl err \<Rightarrow>
                   SendReport (fst (encodeResult e visited line (ErrorResult line err)))
                     (encoded_report e visited line (ErrorResult line err))
               | Inr line_url \<Rightarrow> SendUrl line_url))"

text \<open>
  \<^verbatim>\<open>processUrl\<close> in \<^verbatim>\<open>main\<close>, for a URL received from the channel: the fetch, then
  \<^verbatim>\<open>encodeResult(url.String(), result)\<close>. The model returns the encoded report
  (nil is not sent), the struct it serializes, and the clock.
\<close>

definition processUrl ::
  "nat \<Rightarrow> Worker \<Rightarrow> env \<Rightarrow> string \<Rightarrow> URL \<Rightarrow> nat \<Rightarrow>
     (string + (string option \<times> report option \<times> nat)) option" where
  "processUrl k w e visited url t =
     (case Worker_Fetch k w e url t of
        None \<Rightarrow> None
      | Some (Inl p) \<Rightarrow> Some (Inl p)
      | Some (Inr (result, hops, t')) \<Rightarrow>
          Some (Inr (fst (encodeResult e visited (url_String e url) result),
                     encoded_report e visited (url_String e url) result, t')))"

section \<open>An example environment\<close>

text \<open>
  A small environment on which the theorems below are evaluated. Its URL functions cover
  the fragment \<^verbatim>\<open>scheme://host/path\<close>: a space in the path is written \<^verbatim>\<open>%20\<close> by
  \<open>ex_String\<close>, a percent sign must be followed by two hexadecimal digits, a reference
  that starts with a slash replaces the path, and the empty reference resolves to the
  base. Its servers (\<open>ex_server\<close>, the answer to one request) are these hosts:
  \<^item> \<^verbatim>\<open>h\<close>, and every host that is not named below, serves \<^verbatim>\<open>/robots.txt\<close> (which
    disallows \<^verbatim>\<open>/x\<close>), redirects \<^verbatim>\<open>/a\<close> to \<^verbatim>\<open>/b\<close> and \<^verbatim>\<open>/b\<close> to \<^verbatim>\<open>/c\<close>, and
    answers every other path with \<^verbatim>\<open>200 OK\<close> and the body \<^verbatim>\<open>hello\<close>;
  \<^item> \<^verbatim>\<open>down\<close> refuses connections;
  \<^item> \<^verbatim>\<open>junk\<close> serves a \<^verbatim>\<open>/robots.txt\<close> that the robots reader rejects;
  \<^item> \<^verbatim>\<open>login\<close> redirects every request, \<^verbatim>\<open>/robots.txt\<close> included, to \<^verbatim>\<open>/login\<close>;
  \<^item> \<^verbatim>\<open>loop\<close> answers every request with \<^verbatim>\<open>302 Found\<close> and no \<^verbatim>\<open>Location\<close>;
  \<^item> \<^verbatim>\<open>slow\<close> answers after 100 milliseconds.
  Its HTTP client (\<open>ex_Do\<close>) treats a \<^verbatim>\<open>GET\<close> the way net/http's \<^verbatim>\<open>Client.Do\<close> does
  when \<^verbatim>\<open>CheckRedirect\<close> is nil: a response with status 301, 302, 303, 307 or 308 and a
  \<^verbatim>\<open>Location\<close> is not returned but followed, with the error
  \<^verbatim>\<open>stopped after 10 redirects\<close> once ten requests have been made; a redirect status
  without \<^verbatim>\<open>Location\<close> is returned as it is. \<open>ex_follow\<close> also returns the requests
  that were sent, in order. A clock reading takes one millisecond, and the serializer
  accepts every report (it writes out the key and the content).
\<close>

definition bytes :: "string \<Rightarrow> byte list" where
  "bytes s = map of_char s"

definition ex_escape :: "string \<Rightarrow> string" where
  "ex_escape p = concat (map (\<lambda>c. if c = CHR '' '' then ''%20'' else [c]) p)"

definition ex_String :: "URL \<Rightarrow> string" where
  "ex_String u = Scheme u @ ''://'' @ Host u @ ex_escape (Path u)"

definition isHex :: "char \<Rightarrow> bool" where
  "isHex c = (c \<in> set ''0123456789abcdefABCDEF'')"

fun ex_bad_escape :: "string \<Rightarrow> bool" where
  "ex_bad_escape [] = False"
| "ex_bad_escape (c # cs) =
     (if c = CHR ''%''
      then (case cs of
              a # b # rest \<Rightarrow> (if isHex a \<and> isHex b then ex_bad_escape rest else True)
            | _ \<Rightarrow> True)
      else ex_bad_escape cs)"

definition ex_Parse :: "string \<Rightarrow> string + URL" where
  "ex_Parse s =
     (let sch = takeWhile (\<lambda>c. c \<noteq> CHR '':'') s;
          rest = drop (length sch) s;
          r = drop 3 rest
      in if ex_bad_escape s then Inl (''parse '' @ s @ '': invalid URL escape'')
         else if sch = [] \<or> take 3 rest \<noteq> ''://''
         then Inl (''parse '' @ s @ '': missing protocol scheme'')
         else Inr \<lparr>Scheme = sch, Opaque = [], User = [],
                   Host = takeWhile (\<lambda>c. c \<noteq> CHR ''/'') r,
                   Path = dropWhile (\<lambda>c. c \<noteq> CHR ''/'') r, RawQuery = [], Fragment = []\<rparr>)"

definition ex_ParseRef :: "URL \<Rightarrow> string \<Rightarrow> string + URL" where
  "ex_ParseRef u ref =
     (if ex_bad_escape ref then Inl (''parse '' @ ref @ '': invalid URL escape'')
      else if ref = [] then Inr u
      else if take 1 ref = ''/'' then Inr (u\<lparr>Path := ref\<rparr>)
      else ex_Parse ref)"

definition ex_NewRequest :: "string \<Rightarrow> string \<Rightarrow> string + Request" where
  "ex_NewRequest method s =
     (case ex_Parse s of
        Inl err \<Rightarrow> Inl err
      | Inr u \<Rightarrow> Inr \<lparr>req_Method = method, req_URL = u, req_Header = Map.empty\<rparr>)"

definition robots_txt :: string where
  "robots_txt = ''User-agent: *'' @ [CHR 0x0A] @ ''Disallow: /x''"

definition ex_redirect :: "string \<Rightarrow> roundtrip" where
  "ex_redirect location = Response ''302 Found'' 302 [''Location'' \<mapsto> [location]] []"

definition ex_server :: "Request \<Rightarrow> roundtrip" where
  "ex_server req =
     (let h = Host (req_URL req); p = Path (req_URL req)
      in if h = ''down'' then DoError ''dial tcp: connection refused''
         else if h = ''login'' then ex_redirect ''/login''
         else if h = ''loop'' then Response ''302 Found'' 302 Map.empty []
         else if p = ''/robots.txt'' then
           Response ''200 OK'' 200 Map.empty
             (bytes (if h = ''junk'' then ''<html>'' else robots_txt))
         else if p = ''/a'' then ex_redirect ''/b''
         else if p = ''/b'' then ex_redirect ''/c''
         else Response ''200 OK'' 200 Map.empty (bytes ''hello''))"

datatype ex_hop_result = Final roundtrip | Next URL

definition ex_hop :: "Request \<Rightarrow> ex_hop_result" where
  "ex_hop req =
     (case ex_server req of
        Response status code header body \<Rightarrow>
          (let loc = Header_Get header ''Location''
           in if (code = 301 \<or> code = 302 \<or> code = 303 \<or> code = 307 \<or> code = 308) \<and>
                 loc \<noteq> []
              then (case ex_ParseRef (req_URL req) loc of
                      Inl err \<Rightarrow> Final (DoError (''failed to parse Location header: '' @ err))
                    | Inr u \<Rightarrow> Next u)
              else Final (Response status code header body))
      | DoError err \<Rightarrow> Final (DoError err)
      | CopyError err \<Rightarrow> Final (CopyError err))"

fun ex_follow :: "nat \<Rightarrow> Request list \<Rightarrow> Request \<Rightarrow> Request list \<times> roundtrip" where
  "ex_follow 0 via req =
     (case ex_hop req of
        Final r \<Rightarrow> (via @ [req], r)
      | Next u \<Rightarrow> (via @ [req], DoError ''stopped after 10 redirects''))"
| "ex_follow (Suc n) via req =
     (case ex_hop req of
        Final r \<Rightarrow> (via @ [req], r)
      | Next u \<Rightarrow> ex_follow n (via @ [req]) (req\<lparr>req_URL := u\<rparr>))"

definition ex_Do :: "nat \<Rightarrow> Request \<Rightarrow> roundtrip" where
  "ex_Do t req = snd (ex_follow 9 [] req)"

definition ex_robots :: "int \<Rightarrow> byte list \<Rightarrow> string + RobotsData" where
  "ex_robots code body =
     (if body = bytes ''<html>'' then Inl ''robots.txt: syntax error''
      else Inr (\<lambda>agent path. Inr (\<not> (body = bytes robots_txt \<and> take 2 path = ''/x''))))"

definition ex_Marshal :: "report \<Rightarrow> string + string" where
  "ex_Marshal rep = Inr (''{key: '' @ Key rep @ '', content: '' @ Content rep @ ''}'')"

definition ex_env :: env where
  "ex_env =
     \<lparr>url_String = ex_String, url_Parse = ex_Parse, url_ParseRef = ex_ParseRef,
      http_NewRequest = ex_NewRequest, http_Do = ex_Do,
      timer_fires = (\<lambda>t req options.
         Host (req_URL req) = ''slow'' \<and> TotalTimeout options < 100 * millisecond),
      elapsed_ms = (\<lambda>t1 t2. of_nat (t2 - t1)),
      robots_FromResponseBytes = ex_robots, json_Marshal = ex_Marshal\<rparr>"

definition ex_url :: "string \<Rightarrow> string \<Rightarrow> URL" where
  "ex_url h p = \<lparr>Scheme = ''http'', Opaque = [], User = [], Host = h, Path = p,
                 RawQuery = [], Fragment = []\<rparr>"

section \<open>The semaphore: proofs\<close>

lemma Release_decrements:
  "Semaphore_Release s = Inr (s\<lparr>value_sem := value_sem s - 1\<rparr>, 0)"
  by (simp add: Semaphore_Release_def Let_def)

lemma word_succ_no_wrap:
  fixes v m :: uint
  assumes "v \<le> m" "m \<noteq> - 1"
  shows "unat (v + 1) = Suc (unat v)"
proof -
  have "v \<noteq> - 1" using assms by (auto simp: word_order.extremum_unique)
  then have "1 + v \<noteq> 0" by (metis add.commute add_eq_0_iff2)
  then show ?thesis using unatSuc [of v] by (simp add: add.commute)
qed

lemma sem_inv_Acquire:
  assumes "sem_inv s h" "Semaphore_Acquire s = Acquired s' x"
  shows "sem_inv s' (Suc h) \<and> max_sem s' = max_sem s \<and> x = value_sem s'"
proof -
  from assms(2) have le: "value_sem s + 1 \<le> max_sem s"
    and s': "s' = s\<lparr>value_sem := value_sem s + 1\<rparr>" and x: "x = value_sem s + 1"
    by (auto simp: Semaphore_Acquire_def Let_def split: if_splits)
  have "max_sem s = - 1 \<or> unat (value_sem s + 1) = Suc h"
  proof (cases "max_sem s = - 1")
    case True
    then show ?thesis by simp
  next
    case False
    with assms(1) have "value_sem s \<le> max_sem s" "unat (value_sem s) = h"
      by (auto simp: sem_inv_def)
    with False show ?thesis by (simp add: word_succ_no_wrap)
  qed
  with le s' x show ?thesis by (auto simp: sem_inv_def)
qed

lemma sem_inv_Release:
  assumes "sem_inv s h" "0 < h"
  shows "sem_inv (s\<lparr>value_sem := value_sem s - 1\<rparr>) (h - 1)"
proof (cases "max_sem s = - 1")
  case True
  then show ?thesis by (simp add: sem_inv_def)
next
  case False
  with assms have h: "unat (value_sem s) = h" and le: "value_sem s \<le> max_sem s"
    by (auto simp: sem_inv_def)
  from h assms(2) have nz: "value_sem s \<noteq> 0" by auto
  then have u: "unat (value_sem s - 1) = h - 1" using h by (simp add: unat_minus_one)
  have "value_sem s - 1 \<le> value_sem s" using nz by (simp add: word_le_nat_alt unat_minus_one)
  with le u show ?thesis by (auto simp: sem_inv_def)
qed

lemma sem_inv_Parked:
  assumes "sem_inv s h" "Semaphore_Acquire s = Parked"
  shows "value_sem s = max_sem s"
proof -
  from assms(2) have n: "\<not> value_sem s + 1 \<le> max_sem s"
    by (auto simp: Semaphore_Acquire_def Let_def split: if_splits)
  then have m: "max_sem s \<noteq> - 1" by auto
  from assms(1) have le: "value_sem s \<le> max_sem s" by (simp add: sem_inv_def)
  from n le m show ?thesis
    by (simp add: word_le_nat_alt word_succ_no_wrap [OF le m] word_unat_eq_iff)
qed

lemma matched_run:
  "sem_inv s h \<Longrightarrow> matched s h es \<Longrightarrow>
     \<exists>s' h'. sem_run s es = Inr s' \<and> sem_inv s' h' \<and> max_sem s' = max_sem s"
proof (induction es arbitrary: s h)
  case Nil
  then show ?case by auto
next
  case (Cons e es)
  show ?case
  proof (cases e)
    case Acq
    show ?thesis
    proof (cases "Semaphore_Acquire s")
      case (Acquired s1 x)
      with Cons.prems Acq
      have "sem_inv s1 (Suc h)" and "max_sem s1 = max_sem s" and "matched s1 (Suc h) es"
        using sem_inv_Acquire [of s h s1 x] by auto
      with Cons.IH [of s1 "Suc h"] Acq Acquired show ?thesis by auto
    next
      case Parked
      with Cons.prems Acq Cons.IH [of s h] show ?thesis by auto
    qed
  next
    case Rel
    with Cons.prems have h: "0 < h"
      and m: "matched (s\<lparr>value_sem := value_sem s - 1\<rparr>) (h - 1) es"
      by (auto simp: Release_decrements)
    from sem_inv_Release [OF Cons.prems(1) h] Cons.IH [OF _ m] Rel
    show ?thesis by (auto simp: Release_decrements)
  qed
qed

lemma matched_take: "matched s h es \<Longrightarrow> matched s h (take n es)"
proof (induction es arbitrary: s h n)
  case Nil
  then show ?case by simp
next
  case (Cons e es)
  then show ?case
    by (cases n; cases e) (auto split: acquire_result.splits sum.splits)
qed

lemma sem_inv_New: "sem_inv (NewSemaphore m) 0"
  by (simp add: sem_inv_def NewSemaphore_def)

text \<open>
  Claim C1. The claim: \<^verbatim>\<open>Release()\<close> on a semaphore whose \<^verbatim>\<open>value\<close> is 0 reaches the
  panic "Semaphore Release without Acquire". The code: \<^verbatim>\<open>value\<close> is unsigned, so the
  decrement wraps to \<open>2^64 - 1\<close>, the test \<^verbatim>\<open>s.value < 0\<close> is false, and the call
  returns normally. Evaluated on a fresh semaphore of any capacity \<open>m\<close>: the call
  returns 0 and leaves the counter at 18446744073709551615.
\<close>

theorem Release_at_zero_wraps:
  "Semaphore_Release (NewSemaphore m) =
     Inr (\<lparr>refs = 0, max_sem = m, value_sem = 18446744073709551615\<rparr>, 0)"
  by (simp add: Semaphore_Release_def NewSemaphore_def)

text \<open>
  Claim C8. From a semaphore created with capacity \<open>m\<close>, along every execution in which
  each \<^verbatim>\<open>Release\<close> is preceded by a matching \<^verbatim>\<open>Acquire\<close>, no call panics and after every
  operation (every prefix \<open>take n es\<close>) the state satisfies \<open>0 \<le> value \<le> max = m\<close>. In
  such a state an \<^verbatim>\<open>Acquire\<close> that returns has incremented \<^verbatim>\<open>value\<close> by one to at most
  \<^verbatim>\<open>max\<close> and returns the new value; one that does not return found \<open>value = max\<close>.
\<close>

theorem Semaphore_value_bounded:
  assumes "matched (NewSemaphore m) 0 es"
  shows "\<exists>s. sem_run (NewSemaphore m) (take n es) = Inr s \<and>
             0 \<le> value_sem s \<and> value_sem s \<le> max_sem s \<and> max_sem s = m \<and>
             (case Semaphore_Acquire s of
                Acquired s' x \<Rightarrow>
                  value_sem s' = value_sem s + 1 \<and> x = value_sem s' \<and>
                  value_sem s' \<le> max_sem s' \<and> max_sem s' = m
              | Parked \<Rightarrow> value_sem s = m)"
proof -
  from assms have "matched (NewSemaphore m) 0 (take n es)" by (rule matched_take)
  from matched_run [OF sem_inv_New this] obtain s h
    where r: "sem_run (NewSemaphore m) (take n es) = Inr s" and i: "sem_inv s h"
      and m: "max_sem s = m"
    by (auto simp: NewSemaphore_def)
  have "case Semaphore_Acquire s of
          Acquired s' x \<Rightarrow>
            value_sem s' = value_sem s + 1 \<and> x = value_sem s' \<and>
            value_sem s' \<le> max_sem s' \<and> max_sem s' = m
        | Parked \<Rightarrow> value_sem s = m"
  proof (cases "Semaphore_Acquire s")
    case (Acquired s' x)
    from sem_inv_Acquire [OF i Acquired] have "sem_inv s' (Suc h)" "max_sem s' = max_sem s"
      "x = value_sem s'" by auto
    moreover from Acquired have "value_sem s' = value_sem s + 1"
      by (auto simp: Semaphore_Acquire_def Let_def split: if_splits)
    ultimately show ?thesis using Acquired m by (simp add: sem_inv_def)
  next
    case Parked
    with sem_inv_Parked [OF i Parked] m show ?thesis by simp
  qed
  with r i m show ?thesis by (auto simp: sem_inv_def)
qed

theorem Semaphore_value_bounded_witness:
  "matched (NewSemaphore 2) 0 [Acq, Acq, Acq, Rel, Acq, Rel, Rel] \<and>
   (\<exists>s. sem_run (NewSemaphore 2) (take 5 [Acq, Acq, Acq, Rel, Acq, Rel, Rel]) = Inr s \<and>
        0 \<le> value_sem s \<and> value_sem s \<le> max_sem s \<and> max_sem s = 2 \<and>
        (case Semaphore_Acquire s of
           Acquired s' x \<Rightarrow>
             value_sem s' = value_sem s + 1 \<and> x = value_sem s' \<and>
             value_sem s' \<le> max_sem s' \<and> max_sem s' = 2
         | Parked \<Rightarrow> value_sem s = 2))"
proof -
  have h: "matched (NewSemaphore 2) 0 [Acq, Acq, Acq, Rel, Acq, Rel, Rel]"
    by (simp add: NewSemaphore_def Semaphore_Acquire_def Semaphore_Release_def Let_def)
  show ?thesis
    using h Semaphore_value_bounded [OF h, of 5] by blast
qed

section \<open>The client and the worker: proofs\<close>

lemma ex_selectors [simp]:
  "url_String ex_env = ex_String" "url_Parse ex_env = ex_Parse"
  "url_ParseRef ex_env = ex_ParseRef" "http_NewRequest ex_env = ex_NewRequest"
  "http_Do ex_env = ex_Do"
  "timer_fires ex_env = (\<lambda>t req options.
         Host (req_URL req) = ''slow'' \<and> TotalTimeout options < 100 * millisecond)"
  "elapsed_ms ex_env = (\<lambda>t1 t2. of_nat (t2 - t1))"
  "robots_FromResponseBytes ex_env = ex_robots" "json_Marshal ex_env = ex_Marshal"
  by (simp_all add: ex_env_def)

lemma ex_follow_9:
  "ex_follow 9 = ex_follow (Suc (Suc (Suc (Suc (Suc (Suc (Suc (Suc (Suc 0)))))))))"
  by (simp add: eval_nat_numeral)

lemmas ex_eval = ex_String_def ex_escape_def ex_Parse_def ex_ParseRef_def ex_NewRequest_def
  ex_Do_def ex_follow_9 ex_hop_def ex_server_def ex_redirect_def ex_robots_def ex_url_def
  isHex_def bytes_def robots_txt_def
  Worker_Download_def Client_Fetch_def Client_fetch_def newWorker_def Let_def
  ShouldRedirect_def Header_Get_def ErrorResult_def second_def millisecond_def

lemma fuel_numeral:
  "Worker_Fetch 2 = Worker_Fetch (Suc (Suc 0))"
  "Worker_Fetch 3 = Worker_Fetch (Suc (Suc (Suc 0)))"
  "Worker_Fetch 5 = Worker_Fetch (Suc (Suc (Suc (Suc (Suc 0)))))"
  "Worker_Fetch 6 = Worker_Fetch (Suc (Suc (Suc (Suc (Suc (Suc 0))))))"
  by (simp_all add: eval_nat_numeral)

subsection \<open>The fetch timeout\<close>

text \<open>
  Claim C3. The claim: when the round-trip does not complete before the outer timeout,
  \<^verbatim>\<open>Client.Fetch\<close> aborts it and returns a result with \<^verbatim>\<open>Success=false\<close> and status
  "Fetch timeout: " followed by the milliseconds. The code: the timer branch of the
  \<^verbatim>\<open>select\<close> calls \<^verbatim>\<open>client.Abort\<close>, whose body is \<^verbatim>\<open>panic("Not implemented")\<close>, so
  the call panics and the error result that the next line builds is never returned.
\<close>

theorem Client_Fetch_timeout_panics:
  "timer_fires e t req (case options of None \<Rightarrow> DefaultOptions | Some opts \<Rightarrow> opts) \<Longrightarrow>
   Client_Fetch e req options t = Inl ''Not implemented''"
  by (simp add: Client_Fetch_def Client_Abort_def Let_def)

theorem Client_Fetch_timeout_panics_witness:
  "timer_fires ex_env 0
     \<lparr>req_Method = ''GET'', req_URL = ex_url ''slow'' ''/p'', req_Header = Map.empty\<rparr>
     \<lparr>IOTimeout_opt = 1 * second, TotalTimeout = 10 * millisecond\<rparr> \<and>
   Client_Fetch ex_env
     \<lparr>req_Method = ''GET'', req_URL = ex_url ''slow'' ''/p'', req_Header = Map.empty\<rparr>
     (Some \<lparr>IOTimeout_opt = 1 * second, TotalTimeout = 10 * millisecond\<rparr>) 0 =
     Inl ''Not implemented''"
proof -
  have h: "timer_fires ex_env 0
     \<lparr>req_Method = ''GET'', req_URL = ex_url ''slow'' ''/p'', req_Header = Map.empty\<rparr>
     (case Some \<lparr>IOTimeout_opt = 1 * second, TotalTimeout = 10 * millisecond\<rparr> of
        None \<Rightarrow> DefaultOptions | Some opts \<Rightarrow> opts)"
    by (simp add: ex_url_def millisecond_def)
  from h Client_Fetch_timeout_panics [OF h] show ?thesis by simp
qed

subsection \<open>Download\<close>

text \<open>
  Claim C10. With \<^verbatim>\<open>SkipBody\<close> set, \<^verbatim>\<open>Worker.Download\<close> returns the result of
  \<^verbatim>\<open>client.Fetch\<close> with \<^verbatim>\<open>Body\<close> set to nil and every other field as it was; when
  that result was built from a received response, \<^verbatim>\<open>Length\<close> is the byte count of the
  discarded body and \<^verbatim>\<open>Success\<close>, \<^verbatim>\<open>Status\<close>, \<^verbatim>\<open>StatusCode\<close> and \<^verbatim>\<open>Headers\<close>
  are those of the response.
\<close>

theorem Download_SkipBody_frame:
  assumes "SkipBody w"
    and "http_NewRequest e ''GET'' (url_String e url) = Inr req0"
    and "Client_Fetch e (req0\<lparr>req_Header := (req_Header req0)(''User-Agent'' \<mapsto> [user_agent])\<rparr>)
           (Some \<lparr>IOTimeout_opt = IOTimeout w, TotalTimeout = FetchTimeout w\<rparr>) t =
         Inr (result, t')"
  shows "Worker_Download w e url t = Inr (result\<lparr>Body := None\<rparr>, t') \<and>
         (case http_Do e t (req0\<lparr>req_Header := (req_Header req0)(''User-Agent'' \<mapsto> [user_agent])\<rparr>) of
            Response status code header body \<Rightarrow>
              Success result \<and> Status result = status \<and> StatusCode result = code \<and>
              Headers result = header \<and> Length result = int (length body) \<and>
              Body result = Some body
          | DoError err \<Rightarrow> \<not> Success result
          | CopyError err \<Rightarrow> \<not> Success result)"
  using assms
  by (auto simp: Worker_Download_def Client_Fetch_def Client_fetch_def Client_Abort_def
      ErrorResult_def Let_def split: if_splits roundtrip.splits)

theorem Download_SkipBody_frame_witness:
  "SkipBody (newWorker\<lparr>SkipBody := True\<rparr>) \<and>
   Client_Fetch ex_env
     \<lparr>req_Method = ''GET'', req_URL = ex_url ''h'' ''/ok'',
      req_Header = [''User-Agent'' \<mapsto> [user_agent]]\<rparr>
     (Some \<lparr>IOTimeout_opt = 1 * second, TotalTimeout = 60 * second\<rparr>) 0 =
     Inr (\<lparr>Url = ''http://h/ok'', Success = True, Status = ''200 OK'', StatusCode = 200,
           Headers = Map.empty, Body = Some (bytes ''hello''), Length = 5, Cached = False,
           FetchTime = 1, TotalTime = 0\<rparr>, 2) \<and>
   Worker_Download (newWorker\<lparr>SkipBody := True\<rparr>) ex_env (ex_url ''h'' ''/ok'') 0 =
     Inr (\<lparr>Url = ''http://h/ok'', Success = True, Status = ''200 OK'', StatusCode = 200,
           Headers = Map.empty, Body = None, Length = 5, Cached = False,
           FetchTime = 1, TotalTime = 0\<rparr>, 2)"
proof -
  have h1: "SkipBody (newWorker\<lparr>SkipBody := True\<rparr>)" by simp
  have h2: "http_NewRequest ex_env ''GET'' (url_String ex_env (ex_url ''h'' ''/ok'')) =
      Inr \<lparr>req_Method = ''GET'', req_URL = ex_url ''h'' ''/ok'', req_Header = Map.empty\<rparr>"
    by (simp add: ex_eval)
  have h3: "Client_Fetch ex_env
      (\<lparr>req_Method = ''GET'', req_URL = ex_url ''h'' ''/ok'', req_Header = Map.empty\<rparr>
         \<lparr>req_Header :=
            (req_Header \<lparr>req_Method = ''GET'', req_URL = ex_url ''h'' ''/ok'',
                         req_Header = Map.empty\<rparr>)(''User-Agent'' \<mapsto> [user_agent])\<rparr>)
      (Some \<lparr>IOTimeout_opt = IOTimeout (newWorker\<lparr>SkipBody := True\<rparr>),
             TotalTimeout = FetchTimeout (newWorker\<lparr>SkipBody := True\<rparr>)\<rparr>) 0 =
     Inr (\<lparr>Url = ''http://h/ok'', Success = True, Status = ''200 OK'', StatusCode = 200,
           Headers = Map.empty, Body = Some (bytes ''hello''), Length = 5, Cached = False,
           FetchTime = 1, TotalTime = 0\<rparr>, 2)"
    by (simp add: ex_eval)
  from h1 h3 Download_SkipBody_frame [OF h1 h2 h3] show ?thesis
    by (simp add: newWorker_def)
qed


subsection \<open>Concurrent downloads\<close>











subsection \<open>The redirect loop\<close>

text \<open>
  Claim C5. The claim: with \<^verbatim>\<open>followRedirects = n\<close>, \<^verbatim>\<open>Worker.Fetch\<close> makes at most
  \<open>n + 1\<close> request hops, and with \<open>n = 0\<close> a 302 response is the terminal result
  (\<^verbatim>\<open>StatusCode == 302\<close>) with no further hop. The code: \<^verbatim>\<open>Download\<close> hands the
  request to \<^verbatim>\<open>http_client.Do\<close>, and \<^verbatim>\<open>http_client\<close> has no \<^verbatim>\<open>CheckRedirect\<close>, so
  net/http follows the redirect itself; the loop of \<^verbatim>\<open>Fetch\<close> and its counter never
  see the 302. Evaluated with \<^verbatim>\<open>-redirects=0\<close> on \<^verbatim>\<open>http://h/a\<close>, which the server
  answers with a 302 to \<^verbatim>\<open>/b\<close>: the one \<^verbatim>\<open>Download\<close> of the loop sends three requests,
  to \<^verbatim>\<open>/a\<close>, \<^verbatim>\<open>/b\<close> and \<^verbatim>\<open>/c\<close>, and \<^verbatim>\<open>Fetch\<close> returns the \<^verbatim>\<open>200 OK\<close> of \<^verbatim>\<open>/c\<close>
  under the URL \<^verbatim>\<open>http://h/a\<close>.
\<close>

theorem Fetch_follows_redirects_at_zero:
  "ex_server \<lparr>req_Method = ''GET'', req_URL = ex_url ''h'' ''/a'',
              req_Header = [''User-Agent'' \<mapsto> [user_agent]]\<rparr> =
     Response ''302 Found'' 302 [''Location'' \<mapsto> [''/b'']] [] \<and>
   map (\<lambda>r. ex_String (req_URL r))
     (fst (ex_follow 9 [] \<lparr>req_Method = ''GET'', req_URL = ex_url ''h'' ''/a'',
                            req_Header = [''User-Agent'' \<mapsto> [user_agent]]\<rparr>)) =
     [''http://h/a'', ''http://h/b'', ''http://h/c''] \<and>
   Worker_Fetch 6 (newWorker\<lparr>FollowRedirects := 0\<rparr>) ex_env (ex_url ''h'' ''/a'') 0 =
     Some (Inr (\<lparr>Url = ''http://h/a'', Success = True, Status = ''200 OK'', StatusCode = 200,
                  Headers = Map.empty, Body = Some (bytes ''hello''), Length = 5,
                  Cached = False, FetchTime = 1, TotalTime = 7\<rparr>,
                [\<lparr>Url = ''http://h/a'', Success = True, Status = ''200 OK'', StatusCode = 200,
                   Headers = Map.empty, Body = Some (bytes ''hello''), Length = 5,
                   Cached = False, FetchTime = 1, TotalTime = 0\<rparr>], 8))"
  by (simp add: fuel_numeral ex_eval)

text \<open>
  The loop of \<^verbatim>\<open>Fetch\<close> keeps its own bound: for \<open>n\<close> below the largest \<^verbatim>\<open>uint\<close> it
  calls \<^verbatim>\<open>Download\<close> at most \<open>n + 1\<close> times, and every call but the last returned
  301, 302, 303 or 307. The requests beyond that are made inside \<^verbatim>\<open>Download\<close>.
\<close>

lemma list_all_butlast: "list_all P xs \<Longrightarrow> list_all P (butlast xs)"
  by (auto simp: list_all_iff dest: in_set_butlastD)

lemma Fetch_loop_hops:
  assumes n: "FollowRedirects w \<noteq> - 1"
  shows "Fetch_loop k w e orig redirect url result hops t = Some (Inr (r, hops', t')) \<Longrightarrow>
         length hops = unat redirect \<Longrightarrow> unat redirect \<le> unat (FollowRedirects w) + 1 \<Longrightarrow>
         list_all (\<lambda>h. ShouldRedirect (StatusCode h)) hops \<Longrightarrow>
         length hops' \<le> unat (FollowRedirects w) + 1 \<and>
         list_all (\<lambda>h. ShouldRedirect (StatusCode h)) (butlast hops')"
proof (induction k arbitrary: redirect url result hops t)
  case 0
  then show ?case by simp
next
  case (Suc k)
  show ?case
  proof (cases "redirect \<le> FollowRedirects w")
    case False
    with Suc.prems show ?thesis by (auto simp: list_all_butlast)
  next
    case True
    then have le: "unat redirect \<le> unat (FollowRedirects w)" by (simp add: word_le_nat_alt)
    have suc: "unat (redirect + 1) = Suc (unat redirect)"
      using True n by (rule word_succ_no_wrap)
    have step: "\<And>url' res t2. ShouldRedirect (StatusCode res) \<Longrightarrow>
        Fetch_loop k w e orig (redirect + 1) url' (Some res) (hops @ [res]) t2 =
          Some (Inr (r, hops', t')) \<Longrightarrow>
        length hops' \<le> unat (FollowRedirects w) + 1 \<and>
         list_all (\<lambda>h. ShouldRedirect (StatusCode h)) (butlast hops')"
      using Suc.IH Suc.prems(2,4) le suc by simp
    from Suc.prems(1) True Suc.prems(2,4) le step show ?thesis
      by (auto simp: list_all_butlast split: if_splits option.splits sum.splits prod.splits)
  qed
qed

lemma Fetch_Download_calls_bounded:
  assumes "Worker_Fetch k w e url t = Some (Inr (r, hops, t'))" and "FollowRedirects w \<noteq> - 1"
  shows "length hops \<le> unat (FollowRedirects w) + 1 \<and>
         list_all (\<lambda>h. ShouldRedirect (StatusCode h)) (butlast hops)"
proof (cases k)
  case 0
  with assms show ?thesis by simp
next
  case (Suc k1)
  with assms(1) obtain result ended where
    loop: "Fetch_loop k1 w e url 0 url None [] (t + 1) = Some (Inr (Some result, hops, ended))"
    by (auto split: option.splits sum.splits prod.splits)
  from Fetch_loop_hops [OF assms(2) loop] show ?thesis by simp
qed

text \<open>
  With robots consultation switched off and a bound below the largest \<^verbatim>\<open>uint\<close>, the
  loop ends: fuel \<open>n + 3\<close> is enough for a bound \<open>n\<close>.
\<close>

lemma Fetch_loop_SkipRobots_returns:
  assumes "SkipRobots w" and n: "FollowRedirects w \<noteq> - 1"
  shows "unat redirect \<le> unat (FollowRedirects w) + 1 \<Longrightarrow>
         unat (FollowRedirects w) + 2 \<le> k + unat redirect \<Longrightarrow>
         \<exists>x. Fetch_loop k w e orig redirect url result hops t = Some x"
proof (induction k arbitrary: redirect url result hops t)
  case 0
  then show ?case by simp
next
  case (Suc k)
  show ?case
  proof (cases "redirect \<le> FollowRedirects w")
    case False
    then show ?thesis by simp
  next
    case True
    then have le: "unat redirect \<le> unat (FollowRedirects w)" by (simp add: word_le_nat_alt)
    have suc: "unat (redirect + 1) = Suc (unat redirect)"
      using True n by (rule word_succ_no_wrap)
    have "\<exists>x. Fetch_loop k w e orig (redirect + 1) url' (Some res) (hops @ [res]) t2 = Some x"
      for url' res t2
      using Suc.IH [of "redirect + 1"] Suc.prems le suc by simp
    with True assms(1) show ?thesis
      by (auto split: sum.splits prod.splits)
  qed
qed

lemma Fetch_SkipRobots_returns:
  assumes "SkipRobots w" and "FollowRedirects w \<noteq> - 1"
  shows "\<exists>x. Worker_Fetch (unat (FollowRedirects w) + 3) w e url t = Some x"
proof -
  from Fetch_loop_SkipRobots_returns
    [OF assms, of 0 "unat (FollowRedirects w) + 2" e url url None "[]" "t + 1"]
  obtain x where
    "Fetch_loop (unat (FollowRedirects w) + 2) w e url 0 url None [] (t + 1) = Some x"
    by auto
  then show ?thesis
    by (auto simp: numeral_3_eq_3 split: sum.splits option.splits prod.splits)
qed

subsection \<open>Termination\<close>

text \<open>
  On the host that answers every request with a 302 without \<^verbatim>\<open>Location\<close>, and with the
  largest \<^verbatim>\<open>uint\<close> as bound: net/http returns such a response as it is, \<^verbatim>\<open>Fetch\<close>
  resolves the empty location to the URL it has, and the test
  \<^verbatim>\<open>redirect <= w.FollowRedirects\<close> cannot fail. The fetch of \<^verbatim>\<open>/robots.txt\<close> never
  returns, whatever the fuel, and neither does the robots consultation that waits for it.
\<close>

lemma max_uint: "(18446744073709551615 :: uint) = - 1"
  by simp

lemma Download_loop:
  "Worker_Download (newWorker\<lparr>FollowRedirects := n\<rparr>) ex_env (ex_url ''loop'' ''/robots.txt'') t =
     Inr (\<lparr>Url = ''http://loop/robots.txt'', Success = True, Status = ''302 Found'',
           StatusCode = 302, Headers = Map.empty, Body = Some [], Length = 0,
           Cached = False, FetchTime = 1, TotalTime = 0\<rparr>, t + 2)"
  by (simp add: ex_eval)

lemma loop_facts:
  "Scheme (ex_url h p) = ''http''" "Host (ex_url h p) = h" "Path (ex_url h p) = p"
  "SkipRobots (newWorker\<lparr>FollowRedirects := n\<rparr>) = False"
  "FollowRedirects (newWorker\<lparr>FollowRedirects := n\<rparr>) = n"
  "ex_ParseRef u [] = Inr u"
  "ex_ParseRef (ex_url ''loop'' p) ''http://loop/robots.txt'' =
     Inr (ex_url ''loop'' ''/robots.txt'')"
  by (simp_all add: ex_url_def newWorker_def ex_ParseRef_def ex_Parse_def isHex_def Let_def)

lemma loop_robots_diverges:
  "Fetch_loop k (newWorker\<lparr>FollowRedirects := - 1\<rparr>) ex_env orig redirect
     (ex_url ''loop'' ''/robots.txt'') result hops t = None"
proof (induction k arbitrary: redirect result hops t)
  case 0
  show ?case by simp
next
  case (Suc k)
  show ?case
    by (simp add: loop_facts Download_loop ShouldRedirect_def Header_Get_def Suc.IH)
qed

lemma loop_Fetch_robots_diverges:
  "Worker_Fetch k (newWorker\<lparr>FollowRedirects := - 1\<rparr>) ex_env
     (ex_url ''loop'' ''/robots.txt'') t = None"
  by (cases k) (simp_all add: loop_robots_diverges)

lemma loop_AskRobots_diverges:
  "Worker_AskRobots k (newWorker\<lparr>FollowRedirects := - 1\<rparr>) ex_env (ex_url ''loop'' ''/p'') t = None"
  by (cases k) (simp_all add: loop_facts loop_Fetch_robots_diverges)

text \<open>
  Claim C6. The claim: \<^verbatim>\<open>Worker.Fetch\<close> terminates for every input URL, the redirect
  loop of each \<^verbatim>\<open>Fetch\<close> being bounded by \<^verbatim>\<open>followRedirects\<close>. The code: the loop is
  \<^verbatim>\<open>for redirect := uint(0); redirect <= w.FollowRedirects; redirect++\<close>, and when
  \<^verbatim>\<open>followRedirects\<close> is the largest \<^verbatim>\<open>uint\<close>, which the flag \<^verbatim>\<open>-redirects\<close> accepts,
  the test is true for every value of the counter. Evaluated with
  \<^verbatim>\<open>-redirects=18446744073709551615\<close> on \<^verbatim>\<open>http://loop/p\<close>, whose server answers
  every request with a 302 without \<^verbatim>\<open>Location\<close>: no amount of fuel makes the fetch
  return.
\<close>

theorem Fetch_unbounded_at_max_uint:
  "Worker_Fetch k (newWorker\<lparr>FollowRedirects := 18446744073709551615\<rparr>) ex_env
     (ex_url ''loop'' ''/p'') t = None"
proof (cases k)
  case 0
  then show ?thesis by simp
next
  case k: (Suc k1)
  show ?thesis
  proof (cases k1)
    case 0
    with k show ?thesis by simp
  next
    case (Suc k2)
    with k show ?thesis
      by (simp add: max_uint loop_facts loop_AskRobots_diverges)
  qed
qed

text \<open>
  Below the largest \<^verbatim>\<open>uint\<close> the claim holds for an HTTP client that follows located
  redirects itself, as \<^verbatim>\<open>http_client\<close> does. The assumptions: a response that reaches
  the worker with a redirect status has no \<^verbatim>\<open>Location\<close>; resolving the empty reference
  keeps the path \<^verbatim>\<open>/robots.txt\<close>; and for the URLs \<open>good\<close> that the loop can reach from
  the input URL, the robots URL parses to the path \<^verbatim>\<open>/robots.txt\<close>. Then the inner fetch
  stays on \<^verbatim>\<open>/robots.txt\<close>, where the escape applies at every hop, and \<^verbatim>\<open>Fetch\<close>
  returns within \<open>2 * n + 7\<close> nested calls and loop passes.
\<close>

lemma Download_redirect_Location:
  assumes "\<forall>t req status code header body.
             http_Do e t req = Response status code header body \<longrightarrow> ShouldRedirect code \<longrightarrow>
             Header_Get header ''Location'' = []"
    and "Worker_Download w e url t = Inr (res, t2)" and "ShouldRedirect (StatusCode res)"
  shows "Header_Get (Headers res) ''Location'' = []"
proof -
  have z: "\<not> ShouldRedirect 0" by (simp add: ShouldRedirect_def)
  from assms z show ?thesis
    by (auto simp: Worker_Download_def Client_Fetch_def Client_fetch_def Client_Abort_def
        ErrorResult_def Let_def split: sum.splits if_splits roundtrip.splits) blast+
qed

lemma robots_loop_returns:
  assumes nr: "\<forall>t req status code header body.
             http_Do e t req = Response status code header body \<longrightarrow> ShouldRedirect code \<longrightarrow>
             Header_Get header ''Location'' = []"
    and pe: "\<forall>u u'. Path u = ''/robots.txt'' \<longrightarrow> url_ParseRef e u [] = Inr u' \<longrightarrow>
               Path u' = ''/robots.txt''"
    and n: "FollowRedirects w \<noteq> - 1"
  shows "Path url = ''/robots.txt'' \<Longrightarrow> unat redirect \<le> unat (FollowRedirects w) + 1 \<Longrightarrow>
         unat (FollowRedirects w) + 2 \<le> k + unat redirect \<Longrightarrow>
         \<exists>x. Fetch_loop k w e orig redirect url result hops t = Some x"
proof (induction k arbitrary: redirect url result hops t)
  case 0
  then show ?case by simp
next
  case (Suc k)
  show ?case
  proof (cases "redirect \<le> FollowRedirects w")
    case False
    then show ?thesis by simp
  next
    case le: True
    then have ule: "unat redirect \<le> unat (FollowRedirects w)" by (simp add: word_le_nat_alt)
    have suc: "unat (redirect + 1) = Suc (unat redirect)"
      using le n by (rule word_succ_no_wrap)
    show ?thesis
    proof (cases "Worker_Download w e url t")
      case (Inl p)
      with le Suc.prems(1) show ?thesis by simp
    next
      case (Inr rt)
      obtain res t2 where rt: "rt = (res, t2)" by (cases rt)
      show ?thesis
      proof (cases "ShouldRedirect (StatusCode res)")
        case False
        with le Suc.prems(1) Inr rt show ?thesis by simp
      next
        case sr: True
        from Download_redirect_Location [OF nr Inr [unfolded rt] sr]
        have loc: "Header_Get (Headers res) ''Location'' = []" .
        show ?thesis
        proof (cases "url_ParseRef e url []")
          case (Inl err)
          with le Suc.prems(1) Inr rt sr loc show ?thesis by simp
        next
          case u: (Inr url')
          with pe Suc.prems(1) have p: "Path url' = ''/robots.txt''" by blast
          from Suc.prems ule suc
          have "\<exists>x. Fetch_loop k w e orig (redirect + 1) url' (Some res) (hops @ [res]) t2 = Some x"
            by (intro Suc.IH [OF p]) simp_all
          with le Suc.prems(1) Inr rt sr loc u show ?thesis by simp
        qed
      qed
    qed
  qed
qed

lemma robots_Fetch_returns:
  assumes nr: "\<forall>t req status code header body.
             http_Do e t req = Response status code header body \<longrightarrow> ShouldRedirect code \<longrightarrow>
             Header_Get header ''Location'' = []"
    and pe: "\<forall>u u'. Path u = ''/robots.txt'' \<longrightarrow> url_ParseRef e u [] = Inr u' \<longrightarrow>
               Path u' = ''/robots.txt''"
    and n: "FollowRedirects w \<noteq> - 1"
    and p: "Path ru = ''/robots.txt''" and k: "unat (FollowRedirects w) + 3 \<le> k"
  shows "\<exists>x. Worker_Fetch k w e ru t = Some x"
proof -
  from k obtain k1 where k1: "k = Suc k1" and "unat (FollowRedirects w) + 2 \<le> k1 + unat (0::uint)"
    by (cases k) auto
  from robots_loop_returns [OF nr pe n p _ this(2), of ru None "[]" "t + 1"]
  obtain x where "Fetch_loop k1 w e ru 0 ru None [] (t + 1) = Some x" by auto
  then show ?thesis unfolding k1
    by (auto simp del: Fetch_loop.simps split: sum.splits option.splits prod.splits)
qed

lemma AskRobots_returns:
  assumes nr: "\<forall>t req status code header body.
             http_Do e t req = Response status code header body \<longrightarrow> ShouldRedirect code \<longrightarrow>
             Header_Get header ''Location'' = []"
    and pe: "\<forall>u u'. Path u = ''/robots.txt'' \<longrightarrow> url_ParseRef e u [] = Inr u' \<longrightarrow>
               Path u' = ''/robots.txt''"
    and rp: "\<forall>ru. url_ParseRef e u (Scheme u @ ''://'' @ Host u @ ''/robots.txt'') = Inr ru \<longrightarrow>
               Path ru = ''/robots.txt''"
    and n: "FollowRedirects w \<noteq> - 1"
    and k: "unat (FollowRedirects w) + 4 \<le> k"
  shows "\<exists>x. Worker_AskRobots k w e u t = Some x"
proof -
  from k obtain k1 where k1: "k = Suc k1" and k': "unat (FollowRedirects w) + 3 \<le> k1"
    by (cases k) auto
  show ?thesis
  proof (cases "url_ParseRef e u (Scheme u @ ''://'' @ Host u @ ''/robots.txt'')")
    case (Inl err)
    then show ?thesis unfolding k1 by simp
  next
    case (Inr ru)
    with rp have "Path ru = ''/robots.txt''" by blast
    from robots_Fetch_returns [OF nr pe n this k', of t]
    obtain x where "Worker_Fetch k1 w e ru t = Some x" by auto
    with Inr show ?thesis unfolding k1
      by (auto simp del: Worker_Fetch.simps split: sum.splits prod.splits)
  qed
qed

lemma Fetch_loop_returns:
  assumes ask: "\<forall>k u t. good u \<longrightarrow> unat (FollowRedirects w) + 4 \<le> k \<longrightarrow>
                  (\<exists>x. Worker_AskRobots k w e u t = Some x)"
    and nr: "\<forall>t req status code header body.
             http_Do e t req = Response status code header body \<longrightarrow> ShouldRedirect code \<longrightarrow>
             Header_Get header ''Location'' = []"
    and gs: "\<forall>u u'. good u \<longrightarrow> url_ParseRef e u [] = Inr u' \<longrightarrow> good u'"
    and n: "FollowRedirects w \<noteq> - 1"
  shows "good url \<Longrightarrow> unat redirect \<le> unat (FollowRedirects w) + 1 \<Longrightarrow>
         2 * unat (FollowRedirects w) + 6 \<le> k + unat redirect \<Longrightarrow>
         \<exists>x. Fetch_loop k w e orig redirect url result hops t = Some x"
proof (induction k arbitrary: redirect url result hops t)
  case 0
  then show ?case by simp
next
  case (Suc k)
  show ?case
  proof (cases "redirect \<le> FollowRedirects w")
    case False
    then show ?thesis by simp
  next
    case le: True
    then have ule: "unat redirect \<le> unat (FollowRedirects w)" by (simp add: word_le_nat_alt)
    have suc: "unat (redirect + 1) = Suc (unat redirect)"
      using le n by (rule word_succ_no_wrap)
    from Suc.prems ule have "unat (FollowRedirects w) + 4 \<le> k" by simp
    with ask Suc.prems(1) obtain a where a: "Worker_AskRobots k w e url t = Some a" by blast
    have next_pass: "\<exists>x. Fetch_loop k w e orig (redirect + 1) url' (Some res) (hops @ [res]) t2 = Some x"
      if "Worker_Download w e url t1 = Inr (res, t2)" and "ShouldRedirect (StatusCode res)"
        and "url_ParseRef e url (Header_Get (Headers res) ''Location'') = Inr url'"
      for url' res t1 t2
    proof -
      from Download_redirect_Location [OF nr that(1,2)] that(3)
      have "url_ParseRef e url [] = Inr url'" by simp
      with gs Suc.prems(1) have "good url'" by blast
      from Suc.IH [OF this, of "redirect + 1"] Suc.prems ule suc show ?thesis by simp
    qed
    from le a next_pass show ?thesis
      by (auto split: sum.splits prod.splits)
  qed
qed

lemma Fetch_returns_below_max_uint:
  assumes nr: "\<forall>t req status code header body.
             http_Do e t req = Response status code header body \<longrightarrow> ShouldRedirect code \<longrightarrow>
             Header_Get header ''Location'' = []"
    and pe: "\<forall>u u'. Path u = ''/robots.txt'' \<longrightarrow> url_ParseRef e u [] = Inr u' \<longrightarrow>
               Path u' = ''/robots.txt''"
    and gs: "\<forall>u u'. good u \<longrightarrow> url_ParseRef e u [] = Inr u' \<longrightarrow> good u'"
    and rp: "\<forall>u ru. good u \<longrightarrow>
               url_ParseRef e u (Scheme u @ ''://'' @ Host u @ ''/robots.txt'') = Inr ru \<longrightarrow>
               Path ru = ''/robots.txt''"
    and n: "FollowRedirects w \<noteq> - 1"
    and g: "good url"
  shows "\<exists>x. Worker_Fetch (2 * unat (FollowRedirects w) + 7) w e url t = Some x"
proof -
  define m where "m = 2 * unat (FollowRedirects w) + 6"
  have ask: "\<forall>k u t. good u \<longrightarrow> unat (FollowRedirects w) + 4 \<le> k \<longrightarrow>
                  (\<exists>x. Worker_AskRobots k w e u t = Some x)"
  proof (intro allI impI)
    fix k u t assume "good u" and k: "unat (FollowRedirects w) + 4 \<le> k"
    with rp have "\<forall>ru. url_ParseRef e u (Scheme u @ ''://'' @ Host u @ ''/robots.txt'') = Inr ru \<longrightarrow>
               Path ru = ''/robots.txt''" by blast
    from AskRobots_returns [OF nr pe this n k] show "\<exists>x. Worker_AskRobots k w e u t = Some x" .
  qed
  have "2 * unat (FollowRedirects w) + 6 \<le> m + unat (0::uint)"
    by (simp add: m_def)
  from Fetch_loop_returns [OF ask nr gs n g _ this, of url None "[]" "t + 1"]
  obtain x where "Fetch_loop m w e url 0 url None [] (t + 1) = Some x"
    by auto
  then have "\<exists>x. Worker_Fetch (Suc m) w e url t = Some x"
    by (auto simp del: Fetch_loop.simps split: sum.splits option.splits prod.splits)
  moreover have "2 * unat (FollowRedirects w) + 7 = Suc m"
    by (simp add: m_def)
  ultimately show ?thesis by (simp only:)
qed

text \<open>
  The example environment meets the assumptions. With the flag's default bound of 10 the
  fetch from the host \<^verbatim>\<open>loop\<close> returns, and so does, with the settings of
  \<^verbatim>\<open>newWorker\<close>, the fetch from the host whose \<^verbatim>\<open>/robots.txt\<close> is redirected to
  \<^verbatim>\<open>/login\<close>: net/http gives up on the redirects and the robots download fails.
\<close>

lemma ex_follow_Location:
  "snd (ex_follow n via req) = Response status code header body \<Longrightarrow> ShouldRedirect code \<Longrightarrow>
   Header_Get header ''Location'' = []"
proof (induction n arbitrary: via req)
  case 0
  then show ?case
    by (auto simp: ex_hop_def ShouldRedirect_def Let_def
        split: ex_hop_result.splits roundtrip.splits if_splits sum.splits)
next
  case (Suc n)
  then show ?case
    by (auto simp: ex_hop_def ShouldRedirect_def Let_def
        split: ex_hop_result.splits roundtrip.splits if_splits sum.splits)
qed

lemma ex_Do_Location:
  "\<forall>t req status code header body.
     http_Do ex_env t req = Response status code header body \<longrightarrow> ShouldRedirect code \<longrightarrow>
     Header_Get header ''Location'' = []"
  using ex_follow_Location by (auto simp: ex_Do_def)

lemma Fetch_loop_host_returns_at_10:
  "\<exists>x. Worker_Fetch 27 (newWorker\<lparr>FollowRedirects := 10\<rparr>) ex_env (ex_url ''loop'' ''/p'') t =
         Some x"
proof -
  let ?good = "\<lambda>u. u = ex_url ''loop'' ''/p''"
  have pe: "\<forall>u u'. Path u = ''/robots.txt'' \<longrightarrow> url_ParseRef ex_env u [] = Inr u' \<longrightarrow>
               Path u' = ''/robots.txt''"
    by (auto simp: ex_ParseRef_def)
  have gs: "\<forall>u u'. ?good u \<longrightarrow> url_ParseRef ex_env u [] = Inr u' \<longrightarrow> ?good u'"
    by (auto simp: ex_ParseRef_def)
  have rp: "\<forall>u ru. ?good u \<longrightarrow>
               url_ParseRef ex_env u (Scheme u @ ''://'' @ Host u @ ''/robots.txt'') = Inr ru \<longrightarrow>
               Path ru = ''/robots.txt''"
    by (auto simp: ex_ParseRef_def ex_Parse_def ex_url_def isHex_def Let_def)
  have n: "FollowRedirects (newWorker\<lparr>FollowRedirects := 10\<rparr>) \<noteq> - 1" by simp
  from Fetch_returns_below_max_uint [OF ex_Do_Location pe gs rp n, of "ex_url ''loop'' ''/p''" t]
  show ?thesis by simp
qed

lemma Fetch_redirected_robots_returns:
  "Worker_Fetch 6 newWorker ex_env (ex_url ''login'' ''/p'') 0 =
     Some (Inr (\<lparr>Url = ''http://login/robots.txt'', Success = False,
                  Status = ''Robots download error: stopped after 10 redirects'',
                  StatusCode = 0, Headers = Map.empty, Body = None, Length = 0,
                  Cached = False, FetchTime = 1, TotalTime = 5\<rparr>, [], 6))"
  by (simp add: fuel_numeral ex_eval)

subsection \<open>Robots consultation\<close>








section \<open>The report: proofs\<close>

subsection \<open>Base64\<close>

lemma mask_63: "(63 :: byte) = mask 6"
  by (simp add: mask_eq_exp_minus_1)

lemma below_8:
  "n < 8 \<Longrightarrow> n = 0 \<or> n = 1 \<or> n = 2 \<or> n = 3 \<or> n = 4 \<or> n = 5 \<or> n = 6 \<or> n = (7::nat)"
  by arith

lemma first_byte:
  "push_bit 2 (drop_bit 2 a) OR drop_bit 4 (push_bit 4 a AND 63 OR drop_bit 4 b) = (a :: byte)"
  unfolding mask_63
proof (rule bit_word_eqI)
  fix n assume "n < LENGTH(8)"
  then have "n < 8" by simp
  from below_8 [OF this]
  show "bit (push_bit 2 (drop_bit 2 a) OR drop_bit 4 (push_bit 4 a AND mask 6 OR drop_bit 4 b)) n
          = bit a n"
    by (elim disjE) (simp_all add: bit_simps)
qed

lemma first_byte_padded:
  "push_bit 2 (drop_bit 2 a) OR drop_bit 4 (push_bit 4 a AND 63) = (a :: byte)"
  unfolding mask_63
proof (rule bit_word_eqI)
  fix n assume "n < LENGTH(8)"
  then have "n < 8" by simp
  from below_8 [OF this]
  show "bit (push_bit 2 (drop_bit 2 a) OR drop_bit 4 (push_bit 4 a AND mask 6)) n = bit a n"
    by (elim disjE) (simp_all add: bit_simps)
qed

lemma second_byte:
  "push_bit 4 (push_bit 4 a AND 63 OR drop_bit 4 b) OR
     drop_bit 2 (push_bit 2 b AND 63 OR drop_bit 6 c) = (b :: byte)"
  unfolding mask_63
proof (rule bit_word_eqI)
  fix n assume "n < LENGTH(8)"
  then have "n < 8" by simp
  from below_8 [OF this]
  show "bit (push_bit 4 (push_bit 4 a AND mask 6 OR drop_bit 4 b) OR
             drop_bit 2 (push_bit 2 b AND mask 6 OR drop_bit 6 c)) n = bit b n"
    by (elim disjE) (simp_all add: bit_simps)
qed

lemma second_byte_padded:
  "push_bit 4 (push_bit 4 a AND 63 OR drop_bit 4 b) OR drop_bit 2 (push_bit 2 b AND 63)
     = (b :: byte)"
  unfolding mask_63
proof (rule bit_word_eqI)
  fix n assume "n < LENGTH(8)"
  then have "n < 8" by simp
  from below_8 [OF this]
  show "bit (push_bit 4 (push_bit 4 a AND mask 6 OR drop_bit 4 b) OR
             drop_bit 2 (push_bit 2 b AND mask 6)) n = bit b n"
    by (elim disjE) (simp_all add: bit_simps)
qed

lemma third_byte:
  "push_bit 6 (push_bit 2 b AND 63 OR drop_bit 6 c) OR (c AND 63) = (c :: byte)"
  unfolding mask_63
proof (rule bit_word_eqI)
  fix n assume "n < LENGTH(8)"
  then have "n < 8" by simp
  from below_8 [OF this]
  show "bit (push_bit 6 (push_bit 2 b AND mask 6 OR drop_bit 6 c) OR (c AND mask 6)) n = bit c n"
    by (elim disjE) (simp_all add: bit_simps)
qed

lemma sextet_iff: "(s::byte) < 64 \<longleftrightarrow> s AND mask 6 = s"
  using mask_eq_iff_w2p [of 6 s] by (simp add: word_size)

lemma sextet_high: "drop_bit 2 (a :: byte) < 64"
  unfolding sextet_iff
proof (rule bit_word_eqI)
  fix n assume "n < LENGTH(8)"
  then have "n < 8" by simp
  from below_8 [OF this]
  show "bit (drop_bit 2 a AND mask 6) n = bit (drop_bit 2 a) n"
    by (elim disjE) (auto simp: bit_simps dest: bit_imp_le_length)
qed

lemma sextet_low: "(x :: byte) AND 63 < 64"
  unfolding sextet_iff mask_63 by simp

lemma sextet_mixed: "(x :: byte) AND 63 OR drop_bit k y < 64" if "2 \<le> k" for k
  unfolding sextet_iff mask_63
proof (rule bit_word_eqI)
  fix n assume "n < LENGTH(8)"
  then have "n < 8" by simp
  from below_8 [OF this] that
  show "bit ((x AND mask 6 OR drop_bit k y) AND mask 6) n = bit (x AND mask 6 OR drop_bit k y) n"
    by (elim disjE) (auto simp: bit_simps dest: bit_imp_le_length)
qed

lemma alphabet_table:
  "list_all (\<lambda>n. map_of (zip encodeStd [0..<64]) (encodeStd ! n) = Some n \<and>
                  encodeStd ! n \<noteq> CHR ''='') [0..<64]"
  by code_simp

lemma dec6_enc6:
  assumes "s < 64"
  shows "dec6 (enc6 s) = Some s" and "enc6 s \<noteq> CHR ''=''"
proof -
  from assms have "unat s < 64" by (simp add: word_less_nat_alt)
  with alphabet_table
  have "map_of (zip encodeStd [0..<64]) (encodeStd ! unat s) = Some (unat s)"
    and "encodeStd ! unat s \<noteq> CHR ''=''"
    by (simp_all add: list_all_iff)
  then show "dec6 (enc6 s) = Some s" and "enc6 s \<noteq> CHR ''=''"
    by (simp_all add: dec6_def enc6_def)
qed

lemma decode_group1:
  "s0 < 64 \<Longrightarrow> s1 < 64 \<Longrightarrow>
   b64_Decode [enc6 s0, enc6 s1, CHR ''='', CHR ''=''] = Some [push_bit 2 s0 OR drop_bit 4 s1]"
  by (simp add: dec6_enc6)

lemma decode_group2:
  "s0 < 64 \<Longrightarrow> s1 < 64 \<Longrightarrow> s2 < 64 \<Longrightarrow>
   b64_Decode [enc6 s0, enc6 s1, enc6 s2, CHR ''=''] =
     Some [push_bit 2 s0 OR drop_bit 4 s1, push_bit 4 s1 OR drop_bit 2 s2]"
  by (simp add: dec6_enc6)

lemma decode_group3:
  "s0 < 64 \<Longrightarrow> s1 < 64 \<Longrightarrow> s2 < 64 \<Longrightarrow> s3 < 64 \<Longrightarrow>
   b64_Decode (enc6 s0 # enc6 s1 # enc6 s2 # enc6 s3 # rest) =
     map_option ((@) [push_bit 2 s0 OR drop_bit 4 s1, push_bit 4 s1 OR drop_bit 2 s2,
                      push_bit 6 s2 OR s3]) (b64_Decode rest)"
  by (simp add: dec6_enc6)

lemma b64_roundtrip: "b64_Decode (b64_Encode bs) = Some bs"
proof (induction bs rule: b64_Encode.induct)
  case 1
  show ?case by simp
next
  case (2 a)
  show ?case
    by (simp only: b64_Encode.simps decode_group1 [OF sextet_high sextet_low] first_byte_padded)
next
  case (3 a b)
  have k: "(2::nat) \<le> 4" by simp
  show ?case
    by (simp only: b64_Encode.simps
        decode_group2 [OF sextet_high sextet_mixed [OF k] sextet_low] first_byte
        second_byte_padded)
next
  case (4 a b c rest)
  have k: "(2::nat) \<le> 4" "(2::nat) \<le> 6" by simp_all
  show ?case
    by (simp only: b64_Encode.simps
        decode_group3 [OF sextet_high sextet_mixed [OF k(1)] sextet_mixed [OF k(2)] sextet_low]
        "4.IH" first_byte second_byte third_byte option.map append.simps)
qed

subsection \<open>Content and length\<close>

lemma Download_body_length:
  assumes "http_NewRequest e ''GET'' (url_String e url) = Inr req0"
    and "http_Do e t (req0\<lparr>req_Header := (req_Header req0)(''User-Agent'' \<mapsto> [user_agent])\<rparr>) =
           Response status code header body"
    and "Worker_Download w e url t = Inr (result, t')"
  shows "Length result = int (length body) \<and>
         Body result = (if SkipBody w then None else Some body)"
  using assms
  by (auto simp: Worker_Download_def Client_Fetch_def Client_fetch_def Client_Abort_def Let_def
      split: if_splits)

lemma recovery_report_content:
  "Content (recovery_report rep err) = [] \<and> Length_r (recovery_report rep err) = Length_r rep"
  by (simp add: recovery_report_def)

text \<open>
  Claim C9, as amended. For every fetch result, decoding the \<^verbatim>\<open>content\<close> of the report
  that \<^verbatim>\<open>encodeResult\<close> builds as base64 yields the result's \<^verbatim>\<open>Body\<close> byte for byte
  (nothing for a nil \<^verbatim>\<open>Body\<close>), and the report's \<^verbatim>\<open>length\<close> is the result's
  \<^verbatim>\<open>Length\<close>; this is the report that is written out when \<^verbatim>\<open>json.Marshal\<close> has
  encoded it. For a result that \<^verbatim>\<open>Download\<close> built from a received response,
  \<^verbatim>\<open>Length\<close> is the byte length of the response body, and \<^verbatim>\<open>Body\<close> is that body when
  \<^verbatim>\<open>SkipBody\<close> is off and nil when it is on.
\<close>

theorem report_content_and_length:
  "b64_Decode (Content (fill_report visited key result)) =
     Some (case Body result of None \<Rightarrow> [] | Some b \<Rightarrow> b) \<and>
   Length_r (fill_report visited key result) = Length result \<and>
   (\<forall>encoded. json_Marshal e (fill_report visited key result) = Inr encoded \<longrightarrow>
      encodeResult e visited key result = (Some encoded, None) \<and>
      encoded_report e visited key result = Some (fill_report visited key result)) \<and>
   (\<forall>w url t t' req0 status code header body.
      http_NewRequest e ''GET'' (url_String e url) = Inr req0 \<longrightarrow>
      http_Do e t (req0\<lparr>req_Header := (req_Header req0)(''User-Agent'' \<mapsto> [user_agent])\<rparr>) =
        Response status code header body \<longrightarrow>
      Worker_Download w e url t = Inr (result, t') \<longrightarrow>
      Length result = int (length body) \<and>
      Body result = (if SkipBody w then None else Some body))"
proof -
  have "b64_Decode (Content (fill_report visited key result)) =
           Some (case Body result of None \<Rightarrow> [] | Some b \<Rightarrow> b)"
    by (simp add: fill_report_def b64_roundtrip)
  moreover have "Length_r (fill_report visited key result) = Length result"
    by (simp add: fill_report_def)
  ultimately show ?thesis
    using Download_body_length [of e _ _ _ _ _ _ _ _ result]
    by (simp add: encodeResult_def encoded_report_def Let_def)
qed

theorem report_content_and_length_witness:
  "json_Marshal ex_env
     (fill_report ''2012-01-01T00:00:00'' ''http://h/ok''
        \<lparr>Url = ''http://h/ok'', Success = True, Status = ''200 OK'', StatusCode = 200,
        Headers = Map.empty, Body = Some (bytes ''hello''), Length = 5, Cached = False,
        FetchTime = 1, TotalTime = 0\<rparr>) =
     Inr ''{key: http://h/ok, content: aGVsbG8=}'' \<and>
   encodeResult ex_env ''2012-01-01T00:00:00'' ''http://h/ok''
        \<lparr>Url = ''http://h/ok'', Success = True, Status = ''200 OK'', StatusCode = 200,
        Headers = Map.empty, Body = Some (bytes ''hello''), Length = 5, Cached = False,
        FetchTime = 1, TotalTime = 0\<rparr> =
     (Some ''{key: http://h/ok, content: aGVsbG8=}'', None) \<and>
   b64_Decode (Content
     (fill_report ''2012-01-01T00:00:00'' ''http://h/ok''
        \<lparr>Url = ''http://h/ok'', Success = True, Status = ''200 OK'', StatusCode = 200,
        Headers = Map.empty, Body = Some (bytes ''hello''), Length = 5, Cached = False,
        FetchTime = 1, TotalTime = 0\<rparr>)) =
     Some (bytes ''hello'') \<and>
   Length_r
     (fill_report ''2012-01-01T00:00:00'' ''http://h/ok''
        \<lparr>Url = ''http://h/ok'', Success = True, Status = ''200 OK'', StatusCode = 200,
        Headers = Map.empty, Body = Some (bytes ''hello''), Length = 5, Cached = False,
        FetchTime = 1, TotalTime = 0\<rparr>) = 5 \<and>
   Worker_Download newWorker ex_env (ex_url ''h'' ''/ok'') 0 =
     Inr (\<lparr>Url = ''http://h/ok'', Success = True, Status = ''200 OK'', StatusCode = 200,
        Headers = Map.empty, Body = Some (bytes ''hello''), Length = 5, Cached = False,
        FetchTime = 1, TotalTime = 0\<rparr>, 2)"
proof -
  have h: "json_Marshal ex_env
     (fill_report ''2012-01-01T00:00:00'' ''http://h/ok''
        \<lparr>Url = ''http://h/ok'', Success = True, Status = ''200 OK'', StatusCode = 200,
        Headers = Map.empty, Body = Some (bytes ''hello''), Length = 5, Cached = False,
        FetchTime = 1, TotalTime = 0\<rparr>) =
     Inr ''{key: http://h/ok, content: aGVsbG8=}''"
    by (simp add: fill_report_def ex_Marshal_def bytes_def enc6_def encodeStd_def)
  have d: "Worker_Download newWorker ex_env (ex_url ''h'' ''/ok'') 0 =
     Inr (\<lparr>Url = ''http://h/ok'', Success = True, Status = ''200 OK'', StatusCode = 200,
        Headers = Map.empty, Body = Some (bytes ''hello''), Length = 5, Cached = False,
        FetchTime = 1, TotalTime = 0\<rparr>, 2)"
    by (simp add: ex_eval)
  from h d
    report_content_and_length [of "''2012-01-01T00:00:00''" "''http://h/ok''"
      "\<lparr>Url = ''http://h/ok'', Success = True, Status = ''200 OK'', StatusCode = 200,
        Headers = Map.empty, Body = Some (bytes ''hello''), Length = 5, Cached = False,
        FetchTime = 1, TotalTime = 0\<rparr>" ex_env]
  show ?thesis by simp
qed

text \<open>
  The claim C9 as it was stated fails with \<^verbatim>\<open>SkipBody\<close>: the server's body
  \<^verbatim>\<open>hello\<close> is dropped before the report is built, so the content of the report is
  empty and decodes to nothing, while the length is 5.
\<close>

theorem report_content_counterexample:
  "processUrl 3 (newWorker\<lparr>SkipBody := True, SkipRobots := True\<rparr>) ex_env
      ''2012-01-01T00:00:00'' (ex_url ''h'' ''/ok'') 0 =
     Some (Inr (Some ''{key: http://h/ok, content: }'',
        Some \<lparr>Key = ''http://h/ok'', Url_r = ''http://h/ok'', Success_r = True,
            Status_r = ''200 OK'', StatusCode_r = 200, Headers_r = Map.empty,
            Content = [], Length_r = 5, Cached_r = False,
            Visited = ''2012-01-01T00:00:00'', FetchTime_r = 1, TotalTime_r = 3\<rparr>, 4)) \<and>
   ex_Do 1 \<lparr>req_Method = ''GET'', req_URL = ex_url ''h'' ''/ok'',
            req_Header = [''User-Agent'' \<mapsto> [user_agent]]\<rparr> =
     Response ''200 OK'' 200 Map.empty (bytes ''hello'') \<and>
   b64_Decode [] = Some [] \<and> bytes ''hello'' \<noteq> []"
  by (simp add: processUrl_def fuel_numeral ex_eval encodeResult_def encoded_report_def
      fill_report_def ex_Marshal_def)

subsection \<open>The key\<close>

lemma processUrl_key:
  "processUrl k w e visited url t = Some (Inr (enc, Some rep, t')) \<Longrightarrow>
   Key rep = url_String e url"
  by (auto simp: processUrl_def encoded_report_def fill_report_def recovery_report_def Let_def
      split: option.splits sum.splits prod.splits)

lemma stdinReader_key:
  "stdinReader_line e visited line = SendReport enc (Some rep) \<Longrightarrow> Key rep = TrimSpace line"
  by (auto simp: stdinReader_line_def encoded_report_def fill_report_def recovery_report_def
      Let_def split: option.splits sum.splits prod.splits if_splits)

text \<open>
  Claim C4. The claim: the report's \<^verbatim>\<open>key\<close> is the input line that was read for the
  URL. The code: a line that fails to parse is reported with the trimmed line as key
  (\<open>stdinReader_key\<close>), but for a line that parses only the \<^verbatim>\<open>*url.URL\<close> travels
  through the channel, and \<^verbatim>\<open>processUrl\<close> passes \<^verbatim>\<open>url.String()\<close> as the key
  (\<open>processUrl_key\<close>); the later \<^verbatim>\<open>main\<close> has the same two lines. The
  re-serialized URL is not the line whenever the line is not in the form that
  \<^verbatim>\<open>String\<close> produces. Evaluated on the line \<^verbatim>\<open>http://h/a b\<close>: it parses, and the key
  of its report is \<^verbatim>\<open>http://h/a%20b\<close>.
\<close>

theorem report_key_is_url_string:
  "stdinReader_line ex_env ''2012-01-01T00:00:00'' (''http://h/a b'' @ [CHR 0x0A]) =
     SendUrl (ex_url ''h'' ''/a b'') \<and>
   processUrl 6 newWorker ex_env ''2012-01-01T00:00:00'' (ex_url ''h'' ''/a b'') 0 =
     Some (Inr (Some ''{key: http://h/a%20b, content: aGVsbG8=}'',
        Some \<lparr>Key = ''http://h/a%20b'', Url_r = ''http://h/a%20b'',
            Success_r = True, Status_r = ''200 OK'', StatusCode_r = 200,
            Headers_r = Map.empty, Content = ''aGVsbG8='', Length_r = 5,
            Cached_r = False, Visited = ''2012-01-01T00:00:00'',
            FetchTime_r = 1, TotalTime_r = 7\<rparr>, 8))"
  by (simp add: stdinReader_line_def TrimSpace_def isSpace_def processUrl_def fuel_numeral
      ex_eval encodeResult_def encoded_report_def fill_report_def ex_Marshal_def
      enc6_def encodeStd_def)

end
